theory Spec2Isabelle
  imports Main "HOL-Library.Char_ord" "HOL-Library.List_Lexorder"
begin

section \<open>Python values, errors and control flow\<close>

text \<open>
  The exceptions the modelled code can raise. \<open>ArticleException\<close> is the class of
  \<^verbatim>\<open>article.py\<close>; the others are Python's built-in ones.
\<close>

datatype error =
  ArticleException | Exception | AttributeError | TypeError | IndexError | AssertionError |
  UnboundLocalError

text \<open>
  The values an attribute of a \<^verbatim>\<open>Configuration\<close> object may hold in this model: \<^verbatim>\<open>None\<close>,
  booleans, (unbounded) integers and strings. A Python \<^verbatim>\<open>str\<close> is a \<open>string\<close>, one
  \<open>char\<close> standing for one character, so that \<open>length\<close> is Python's \<^verbatim>\<open>len\<close>.
\<close>

datatype pyval = PNone | PBool bool | PInt int | PStr string

text \<open>Truthiness, as \<^verbatim>\<open>if x:\<close> tests it.\<close>

fun truthy :: "pyval \<Rightarrow> bool" where
  "truthy PNone = False"
| "truthy (PBool b) = b"
| "truthy (PInt n) = (n \<noteq> 0)"
| "truthy (PStr s) = (s \<noteq> [])"

text \<open>
  The stop of a slice \<^verbatim>\<open>xs[:v]\<close>: \<^verbatim>\<open>None\<close> is no bound, an int (or a bool, which
  is an int) is a bound, a string is a \<^verbatim>\<open>TypeError\<close>.
\<close>

fun slice_stop :: "pyval \<Rightarrow> error + int option" where
  "slice_stop PNone = Inr None"
| "slice_stop (PBool b) = Inr (Some (if b then 1 else 0))"
| "slice_stop (PInt n) = Inr (Some n)"
| "slice_stop (PStr s) = Inl TypeError"

text \<open>
  \<^verbatim>\<open>xs[:n]\<close>: the first \<open>n\<close> elements when \<open>n \<ge> 0\<close>, all but the last \<open>-n\<close> when
  \<open>n < 0\<close>, everything when there is no bound.
\<close>

fun py_slice_to :: "'a list \<Rightarrow> int option \<Rightarrow> 'a list" where
  "py_slice_to xs None = xs"
| "py_slice_to xs (Some n) =
     (if 0 \<le> n then take (nat n) xs else take (nat (int (length xs) + n)) xs)"

text \<open>
  The right operand of \<^verbatim>\<open>len(xs) < v\<close> and \<^verbatim>\<open>len(xs) > v\<close>: an int or a bool compares,
  \<^verbatim>\<open>None\<close> and strings raise \<^verbatim>\<open>TypeError\<close>.
\<close>

fun as_number :: "pyval \<Rightarrow> error + int" where
  "as_number PNone = Inl TypeError"
| "as_number (PBool b) = Inr (if b then 1 else 0)"
| "as_number (PInt n) = Inr n"
| "as_number (PStr s) = Inl TypeError"

text \<open>
  \<^verbatim>\<open>s.split(sep)\<close> for a separator of one character: a cut at every occurrence, so the
  result has one more element than \<open>s\<close> has separators and is never empty.
\<close>

fun py_split :: "string \<Rightarrow> char \<Rightarrow> string list" where
  "py_split [] sep = [[]]"
| "py_split (c # cs) sep =
     (if c = sep then [] # py_split cs sep
      else (case py_split cs sep of [] \<Rightarrow> [[c]] | w # ws \<Rightarrow> (c # w) # ws))"

text \<open>
  \<^verbatim>\<open>str.isspace\<close> on the characters below 256, and \<^verbatim>\<open>s.strip()\<close>.
\<close>

definition py_isspace :: "char \<Rightarrow> bool" where
  "py_isspace c =
     (let n = (of_char c :: nat)
      in (9 \<le> n \<and> n \<le> 13) \<or> (28 \<le> n \<and> n \<le> 32) \<or> n = 133 \<or> n = 160)"

definition py_strip :: "string \<Rightarrow> string" where
  "py_strip s = rev (dropWhile py_isspace (rev (dropWhile py_isspace s)))"

text \<open>
  A statement runs on a state and either falls through to the next statement, returns a
  value from the enclosing function, or raises. The state at a raise is kept: Python leaves
  the object as far as the statements before the raise had changed it.
\<close>

datatype 'r outcome = Continue | Return 'r | Raise error

fun block :: "('s \<Rightarrow> 'r outcome \<times> 's) list \<Rightarrow> 's \<Rightarrow> 'r outcome \<times> 's" where
  "block [] s = (Continue, s)"
| "block (c # cs) s =
     (case c s of (Continue, s') \<Rightarrow> block cs s' | (r, s') \<Rightarrow> (r, s'))"

text \<open>A function body: falling off its end returns \<^verbatim>\<open>None\<close>.\<close>

definition body :: "('s \<Rightarrow> unit outcome \<times> 's) list \<Rightarrow> 's \<Rightarrow> unit outcome \<times> 's" where
  "body cs s = (case block cs s of (Continue, s') \<Rightarrow> (Return (), s') | (r, s') \<Rightarrow> (r, s'))"

text \<open>An expression statement \<^verbatim>\<open>self.m(...)\<close>: the callee's result is dropped, a raise is not.\<close>

definition call :: "('s \<Rightarrow> 'a outcome \<times> 's) \<Rightarrow> 's \<Rightarrow> 'r outcome \<times> 's" where
  "call m s = (case m s of (Raise e, s') \<Rightarrow> (Raise e, s') | (_, s') \<Rightarrow> (Continue, s'))"

definition assign :: "('s \<Rightarrow> 's) \<Rightarrow> 's \<Rightarrow> 'r outcome \<times> 's" where
  "assign f s = (Continue, f s)"

definition raise :: "error \<Rightarrow> 's \<Rightarrow> 'r outcome \<times> 's" where
  "raise e s = (Raise e, s)"

definition ret :: "'r \<Rightarrow> 's \<Rightarrow> 'r outcome \<times> 's" where
  "ret v s = (Return v, s)"

text \<open>\<^verbatim>\<open>if cond: stmt\<close>, for a condition whose evaluation may itself raise.\<close>

definition if_then ::
  "('s \<Rightarrow> error + bool) \<Rightarrow> ('s \<Rightarrow> 'r outcome \<times> 's) \<Rightarrow> 's \<Rightarrow> 'r outcome \<times> 's" where
  "if_then cond c s =
     (case cond s of Inl e \<Rightarrow> (Raise e, s) | Inr True \<Rightarrow> c s | Inr False \<Rightarrow> (Continue, s))"

section \<open>Configuration objects and \<^verbatim>\<open>extend_config\<close>\<close>

text \<open>
  Modelled from the spec: the class \<^verbatim>\<open>Configuration\<close> (\<^verbatim>\<open>configuration.py\<close>) is not
  among the sources. The spec describes it as a bundle of recognized options
  (\<^verbatim>\<open>MAX_TEXT\<close>, \<^verbatim>\<open>MAX_TITLE\<close>, \<^verbatim>\<open>MIN_WORD_COUNT\<close>, ...) that \<^verbatim>\<open>extend_config\<close> patches
  field by field. A configuration object is therefore its attribute dictionary: a map from
  attribute names to values, read by \<^verbatim>\<open>getattr\<close>, tested by \<^verbatim>\<open>hasattr\<close> and written by
  \<^verbatim>\<open>setattr\<close> as for a plain Python object. Objects live in a heap and are named by
  their address, so that two names of one object are told from two equal objects.
\<close>

type_synonym config = "string \<Rightarrow> pyval option"

type_synonym ref = nat

definition hasattr :: "config \<Rightarrow> string \<Rightarrow> bool" where
  "hasattr c key = (c key \<noteq> None)"

definition setattr :: "config \<Rightarrow> string \<Rightarrow> pyval \<Rightarrow> config" where
  "setattr c key val = c(key \<mapsto> val)"

definition getattr :: "config \<Rightarrow> string \<Rightarrow> error + pyval" where
  "getattr c key = (case c key of None \<Rightarrow> Inl AttributeError | Some v \<Rightarrow> Inr v)"

text \<open>
  \<^verbatim>\<open>utils.extend_config\<close>, lines 127-137. The loop over \<^verbatim>\<open>config_items.items()\<close>, on the
  attribute dictionary of the object; the dictionary of keyword arguments is the list of
  its items in insertion order.
\<close>

fun extend_config_loop :: "(string \<times> pyval) list \<Rightarrow> config \<Rightarrow> config" where
  "extend_config_loop [] c = c"
| "extend_config_loop ((key, val) # items) c =
     extend_config_loop items (if hasattr c key then setattr c key val else c)"

text \<open>
  The function itself: it works on the object at address \<open>r\<close> of the heap and returns
  that address.
\<close>

definition extend_config ::
  "ref \<Rightarrow> (string \<times> pyval) list \<Rightarrow> (ref \<Rightarrow> config) \<Rightarrow> ref \<times> (ref \<Rightarrow> config)" where
  "extend_config r config_items heap =
     (r, heap(r := extend_config_loop config_items (heap r)))"


section \<open>The Article object and its environment\<close>

text \<open>
  What the constructor may be given as \<^verbatim>\<open>title\<close> or \<^verbatim>\<open>source_url\<close>: \<^verbatim>\<open>None\<close>, a string,
  or (by mistake) a \<^verbatim>\<open>Configuration\<close> object; \<^verbatim>\<open>isinstance(x, Configuration)\<close> is the test
  for the last constructor.
\<close>

datatype arg = ArgNone | ArgStr string | ArgConfiguration ref

fun is_Configuration :: "arg \<Rightarrow> bool" where
  "is_Configuration (ArgConfiguration r) = True"
| "is_Configuration _ = False"

text \<open>The raw HTML: \<^verbatim>\<open>None\<close>, a \<^verbatim>\<open>str\<close> or a \<^verbatim>\<open>bytes\<close> object.\<close>

datatype html = HtmlNone | HtmlStr string | HtmlBytes string

fun html_truthy :: "html \<Rightarrow> bool" where
  "html_truthy HtmlNone = False"
| "html_truthy (HtmlStr h) = (h \<noteq> [])"
| "html_truthy (HtmlBytes b) = (b \<noteq> [])"

text \<open>A video object of the video extractor: only its \<^verbatim>\<open>src\<close> is read.\<close>

record video =
  src :: "string option"

text \<open>
  The fields of \<^verbatim>\<open>Article.__init__\<close>, lines 41-124, in the order of the source. The field
  \<^verbatim>\<open>text\<close> is \<open>article_text\<close> and \<^verbatim>\<open>keywords\<close> is \<open>nlp_keywords\<close> (both are
  reserved words here). DOM objects and the configuration are held by address.
  \<open>link_hash\<close> and \<open>download_exception_msg\<close> are attributes that \<^verbatim>\<open>__init__\<close> does not
  create: \<open>None\<close> is "no such attribute".
\<close>

record 'x article =
  config :: ref
  extractor :: 'x
  title :: "string option"
  top_img :: string
  top_image :: string
  meta_img :: string
  imgs :: "string list"
  images :: "string list"
  movies :: "string list"
  article_text :: string
  nlp_keywords :: "string list"
  meta_keywords :: "string list"
  tags :: "string set"
  authors :: "string list"
  publish_date :: string
  summary :: string
  html :: html
  article_html :: string
  is_parsed :: bool
  meta_description :: string
  meta_lang :: string
  meta_favicon :: string
  meta_site_name :: string
  meta_data :: "(string \<times> string) list"
  canonical_link :: string
  top_node :: "ref option"
  clean_top_node :: "ref option"
  doc :: "ref option"
  clean_doc :: "ref option"
  additional_data :: "(string \<times> string) list"
  link_hash :: "string option"
  download_exception_msg :: "string option"

text \<open>
  The state a method runs on: the Article (\<^verbatim>\<open>self\<close>), the heap of configuration objects,
  the heap of DOM elements (type \<open>'e\<close>) with its allocation counter, the operating system
  (type \<open>'w\<close>: the file system), what \<^verbatim>\<open>'%s' % time.time()\<close> prints, and the one local
  variable of \<^verbatim>\<open>parse\<close> that is assigned, changed and read in different statements,
  \<^verbatim>\<open>output_formatter\<close> (\<open>None\<close>: not yet bound).
\<close>

record ('e, 'x, 'f, 'w) state =
  self :: "'x article"
  config_heap :: "ref \<Rightarrow> config"
  elem_heap :: "ref \<Rightarrow> 'e"
  next_ref :: ref
  os :: 'w
  clock :: string
  output_formatter :: "'f option"

text \<open>
  The collaborators. \<^verbatim>\<open>article.py\<close> imports them from modules that are not among the
  sources (\<^verbatim>\<open>configuration\<close>, \<^verbatim>\<open>extractors\<close>, \<^verbatim>\<open>cleaners\<close>, \<^verbatim>\<open>outputformatters\<close>,
  \<^verbatim>\<open>videos.extractors\<close>, \<^verbatim>\<open>settings\<close>, the parser) or from Python's library (\<^verbatim>\<open>hashlib\<close>,
  \<^verbatim>\<open>os\<close>, \<^verbatim>\<open>glob\<close>), so they are parameters: every definition below takes a record \<open>C\<close> of
  them. An extractor or formatter method gets the current attributes of the configuration
  object it holds and its own state (\<open>'x\<close>, \<open>'f\<close>: the language it was last told). They
  are functions: they return, and they return the same for the same arguments.
  \<open>os_mkdir\<close> is only ever called on a path for which \<open>os_path_exists\<close> is false, and is
  taken to succeed there; \<open>os_remove\<close> gives \<open>None\<close> when \<^verbatim>\<open>os.remove\<close> raises
  \<^verbatim>\<open>OSError\<close>; \<open>open_read\<close> gives \<open>Inl strerror\<close> when opening or reading raises it.
\<close>

record ('e, 'x, 'f, 'w) collab =
  Configuration :: config
  parser_fromstring :: "html \<Rightarrow> 'e option"
  parser_get_unicode_html :: "string \<Rightarrow> string"
  ContentExtractor :: "config \<Rightarrow> 'x"
  get_title :: "config \<Rightarrow> 'x \<Rightarrow> 'e option \<Rightarrow> string"
  get_authors :: "config \<Rightarrow> 'x \<Rightarrow> 'e option \<Rightarrow> string list"
  get_meta_lang :: "config \<Rightarrow> 'x \<Rightarrow> 'e option \<Rightarrow> string option"
  update_language :: "config \<Rightarrow> 'x \<Rightarrow> string \<Rightarrow> 'x"
  get_meta_site_name :: "config \<Rightarrow> 'x \<Rightarrow> 'e option \<Rightarrow> string"
  get_meta_description :: "config \<Rightarrow> 'x \<Rightarrow> 'e option \<Rightarrow> string"
  extract_tags :: "config \<Rightarrow> 'x \<Rightarrow> 'e option \<Rightarrow> string set"
  get_meta_keywords :: "config \<Rightarrow> 'x \<Rightarrow> 'e option \<Rightarrow> string"
  get_meta_data :: "config \<Rightarrow> 'x \<Rightarrow> 'e option \<Rightarrow> (string \<times> string) list"
  get_meta_type :: "config \<Rightarrow> 'x \<Rightarrow> 'e option \<Rightarrow> string"
  calculate_best_node :: "config \<Rightarrow> 'x \<Rightarrow> 'e \<Rightarrow> 'e option"
  post_cleanup :: "config \<Rightarrow> 'x \<Rightarrow> 'e \<Rightarrow> 'e"
  DocumentCleaner_clean :: "config \<Rightarrow> 'e \<Rightarrow> 'e"
  OutputFormatter :: "config \<Rightarrow> 'f"
  formatter_update_language :: "config \<Rightarrow> 'f \<Rightarrow> string \<Rightarrow> 'f"
  get_formatted :: "config \<Rightarrow> 'f \<Rightarrow> 'e \<Rightarrow> (string \<times> string) \<times> 'e"
  get_videos :: "config \<Rightarrow> 'e \<Rightarrow> video option list"
  md5_hexdigest :: "string \<Rightarrow> string"
  encode_utf8 :: "string \<Rightarrow> string"
  stopword_files :: "string list"
  TOP_DIRECTORY :: string
  os_path_exists :: "'w \<Rightarrow> string \<Rightarrow> bool"
  os_mkdir :: "'w \<Rightarrow> string \<Rightarrow> 'w"
  glob_glob :: "'w \<Rightarrow> string \<Rightarrow> string list"
  os_remove :: "'w \<Rightarrow> string \<Rightarrow> 'w option"
  open_read :: "'w \<Rightarrow> string \<Rightarrow> string + string"

type_synonym ('e, 'x, 'f, 'w) proc =
  "('e, 'x, 'f, 'w) state \<Rightarrow> unit outcome \<times> ('e, 'x, 'f, 'w) state"

text \<open>\<^verbatim>\<open>self.config\<close>, dereferenced: the attributes of the Article's configuration.\<close>

definition cfg :: "('e, 'x, 'f, 'w) state \<Rightarrow> config" where
  "cfg s = config_heap s (config (self s))"

text \<open>The element an optional reference names (\<^verbatim>\<open>None\<close> stays \<^verbatim>\<open>None\<close>).\<close>

definition deref :: "('e, 'x, 'f, 'w) state \<Rightarrow> ref option \<Rightarrow> 'e option" where
  "deref s r = map_option (elem_heap s) r"

text \<open>A new DOM object: the next free address of the element heap.\<close>

definition alloc_elem ::
  "'e \<Rightarrow> ('e, 'x, 'f, 'w) state \<Rightarrow> ref \<times> ('e, 'x, 'f, 'w) state" where
  "alloc_elem e s =
     (next_ref s, s\<lparr>elem_heap := (elem_heap s)(next_ref s := e), next_ref := Suc (next_ref s)\<rparr>)"

text \<open>\<^verbatim>\<open>copy.deepcopy(x)\<close> of a DOM object or of \<^verbatim>\<open>None\<close>.\<close>

definition deepcopy ::
  "ref option \<Rightarrow> ('e, 'x, 'f, 'w) state \<Rightarrow> ref option \<times> ('e, 'x, 'f, 'w) state" where
  "deepcopy x s =
     (case x of None \<Rightarrow> (None, s)
      | Some r \<Rightarrow> (case alloc_elem (elem_heap s r) s of (r', s') \<Rightarrow> (Some r', s')))"

text \<open>\<^verbatim>\<open>xs[:self.config.KEY]\<close>: the attribute is read first, then the slice is taken.\<close>

definition cfg_slice :: "config \<Rightarrow> string \<Rightarrow> 'a list \<Rightarrow> error + 'a list" where
  "cfg_slice c key xs =
     (case getattr c key of Inl e \<Rightarrow> Inl e
      | Inr v \<Rightarrow> (case slice_stop v of Inl e \<Rightarrow> Inl e | Inr n \<Rightarrow> Inr (py_slice_to xs n)))"

text \<open>An assignment whose right-hand side may raise.\<close>

definition assign_e :: "('s \<Rightarrow> error + 's) \<Rightarrow> 's \<Rightarrow> 'r outcome \<times> 's" where
  "assign_e f s = (case f s of Inl e \<Rightarrow> (Raise e, s) | Inr s' \<Rightarrow> (Continue, s'))"


section \<open>\<^verbatim>\<open>utils.py\<close>\<close>

text \<open>
  \<^verbatim>\<open>get_available_languages\<close>, lines 116-124. The listing of \<^verbatim>\<open>settings.STOPWORDS_DIR\<close>
  is the parameter \<open>stopword_files\<close>. \<^verbatim>\<open>f.split('-')[1]\<close> raises \<^verbatim>\<open>IndexError\<close> on a
  name without \<^verbatim>\<open>-\<close>, the \<^verbatim>\<open>assert\<close> raises on a code that has not two characters.
\<close>

fun two_dig_codes :: "string list \<Rightarrow> error + string list" where
  "two_dig_codes [] = Inr []"
| "two_dig_codes (f # fs) =
     (case py_split f CHR ''-'' of
        a # b # rest \<Rightarrow>
          (case two_dig_codes fs of
             Inl e \<Rightarrow> Inl e
           | Inr ds \<Rightarrow> Inr ((case py_split b CHR ''.'' of [] \<Rightarrow> [] | d # ws \<Rightarrow> d) # ds))
      | _ \<Rightarrow> Inl IndexError)"

definition get_available_languages :: "('e, 'x, 'f, 'w) collab \<Rightarrow> error + string list" where
  "get_available_languages C =
     (case two_dig_codes (stopword_files C) of
        Inl e \<Rightarrow> Inl e
      | Inr ds \<Rightarrow> if list_all (\<lambda>d. length d = 2) ds then Inr (sort ds) else Inl AssertionError)"

text \<open>
  \<^verbatim>\<open>RawHelper.get_parsing_candidate\<close>, lines 49-53: the link hash of the candidate.
  \<^verbatim>\<open>hashlib.md5\<close> takes bytes; \<^verbatim>\<open>None\<close> is a \<^verbatim>\<open>TypeError\<close>.
\<close>

definition RawHelper_get_parsing_candidate ::
  "('e, 'x, 'f, 'w) collab \<Rightarrow> string \<Rightarrow> html \<Rightarrow> error + string" where
  "RawHelper_get_parsing_candidate C now raw_html =
     (case raw_html of
        HtmlStr h \<Rightarrow> Inr (md5_hexdigest C (encode_utf8 C h) @ ''.'' @ now)
      | HtmlBytes b \<Rightarrow> Inr (md5_hexdigest C b @ ''.'' @ now)
      | HtmlNone \<Rightarrow> Inl TypeError)"

text \<open>
  \<^verbatim>\<open>URLHelper.get_parsing_candidate\<close>, lines 58-63. It raises \<^verbatim>\<open>TypeError\<close> on every
  argument: \<^verbatim>\<open>'#!' in url_to_crawl\<close> raises on \<^verbatim>\<open>None\<close> and on bytes, and on a \<^verbatim>\<open>str\<close>
  \<^verbatim>\<open>hashlib.md5(final_url)\<close> raises, since a string must be encoded before it is hashed.
\<close>

definition URLHelper_get_parsing_candidate ::
  "('e, 'x, 'f, 'w) collab \<Rightarrow> string \<Rightarrow> html \<Rightarrow> error + string" where
  "URLHelper_get_parsing_candidate C now url_to_crawl =
     (case url_to_crawl of
        HtmlNone \<Rightarrow> Inl TypeError
      | HtmlBytes b \<Rightarrow> Inl TypeError
      | HtmlStr u \<Rightarrow> Inl TypeError)"

text \<open>\<^verbatim>\<open>os.path.join(a, b)\<close> of \<^verbatim>\<open>posixpath\<close>, for two components.\<close>

definition os_path_join :: "string \<Rightarrow> string \<Rightarrow> string" where
  "os_path_join a b =
     (if b \<noteq> [] \<and> hd b = CHR ''/'' then b
      else if a = [] \<or> last a = CHR ''/'' then a @ b
      else a @ ''/'' @ b)"

section \<open>The setters of \<^verbatim>\<open>Article\<close>\<close>

text \<open>\<^verbatim>\<open>set_title\<close>, lines 276-278.\<close>

definition set_title :: "string \<Rightarrow> ('e, 'x, 'f, 'w) proc" where
  "set_title input_title = body [
     if_then (\<lambda>s. Inr (input_title \<noteq> []))
       (assign_e (\<lambda>s. case cfg_slice (cfg s) ''MAX_TITLE'' input_title of
           Inl e \<Rightarrow> Inl e
         | Inr t \<Rightarrow> Inr (s\<lparr>self := (self s)\<lparr>title := Some t\<rparr>\<rparr>)))]"

text \<open>\<^verbatim>\<open>set_text\<close>, lines 280-283: the slice first, then the test of what is left.\<close>

definition set_text :: "string \<Rightarrow> ('e, 'x, 'f, 'w) proc" where
  "set_text text0 = body [
     (\<lambda>s. case cfg_slice (cfg s) ''MAX_TEXT'' text0 of
        Inl e \<Rightarrow> (Raise e, s)
      | Inr text1 \<Rightarrow>
          if_then (\<lambda>s. Inr (text1 \<noteq> []))
            (assign (\<lambda>s. s\<lparr>self := (self s)\<lparr>article_text := text1\<rparr>\<rparr>)) s)]"


text \<open>\<^verbatim>\<open>set_article_html\<close>, lines 293-297.\<close>

definition set_article_html :: "string \<Rightarrow> ('e, 'x, 'f, 'w) proc" where
  "set_article_html article_html0 = body [
     if_then (\<lambda>s. Inr (article_html0 \<noteq> []))
       (assign (\<lambda>s. s\<lparr>self := (self s)\<lparr>article_html := article_html0\<rparr>\<rparr>))]"



definition set_authors :: "pyval + string list \<Rightarrow> ('e, 'x, 'f, 'w) proc" where
  "set_authors authors0 = body [
     (\<lambda>s. case authors0 of
        Inl v \<Rightarrow> (Raise Exception, s)
      | Inr as \<Rightarrow>
          if_then (\<lambda>s. Inr (as \<noteq> []))
            (assign_e (\<lambda>s. case cfg_slice (cfg s) ''MAX_AUTHORS'' as of
                Inl e \<Rightarrow> Inl e
              | Inr as' \<Rightarrow> Inr (s\<lparr>self := (self s)\<lparr>authors := as'\<rparr>\<rparr>))) s)]"


text \<open>
  \<^verbatim>\<open>set_meta_language\<close>, lines 328-333. The \<^verbatim>\<open>and\<close> chain is evaluated left to right:
  \<^verbatim>\<open>get_available_languages()\<close> is only called for a string of two characters or more.
\<close>

definition set_meta_language ::
  "('e, 'x, 'f, 'w) collab \<Rightarrow> string option \<Rightarrow> ('e, 'x, 'f, 'w) proc" where
  "set_meta_language C meta_lang0 = body [
     (\<lambda>s. case meta_lang0 of
        None \<Rightarrow> (Continue, s)
      | Some l \<Rightarrow>
          if_then (\<lambda>s. if l \<noteq> [] \<and> 2 \<le> length l
                        then (case get_available_languages C of
                                Inl e \<Rightarrow> Inl e | Inr ls \<Rightarrow> Inr (l \<in> set ls))
                        else Inr False)
            (assign (\<lambda>s. s\<lparr>self := (self s)\<lparr>meta_lang := py_slice_to l (Some 2)\<rparr>\<rparr>)) s)]"

text \<open>\<^verbatim>\<open>set_meta_keywords\<close>, lines 335-338, and the plain setters, lines 340-353.\<close>

definition set_meta_keywords :: "string \<Rightarrow> ('e, 'x, 'f, 'w) proc" where
  "set_meta_keywords meta_keywords0 = body [
     assign (\<lambda>s. s\<lparr>self := (self s)\<lparr>meta_keywords :=
       map py_strip (py_split meta_keywords0 CHR '','')\<rparr>\<rparr>)]"


definition set_meta_site_name :: "string \<Rightarrow> ('e, 'x, 'f, 'w) proc" where
  "set_meta_site_name v = body [assign (\<lambda>s. s\<lparr>self := (self s)\<lparr>meta_site_name := v\<rparr>\<rparr>)]"

definition set_meta_description :: "string \<Rightarrow> ('e, 'x, 'f, 'w) proc" where
  "set_meta_description v = body [assign (\<lambda>s. s\<lparr>self := (self s)\<lparr>meta_description := v\<rparr>\<rparr>)]"

definition set_meta_data :: "(string \<times> string) list \<Rightarrow> ('e, 'x, 'f, 'w) proc" where
  "set_meta_data v = body [assign (\<lambda>s. s\<lparr>self := (self s)\<lparr>meta_data := v\<rparr>\<rparr>)]"

definition set_tags :: "string set \<Rightarrow> ('e, 'x, 'f, 'w) proc" where
  "set_tags v = body [assign (\<lambda>s. s\<lparr>self := (self s)\<lparr>tags := v\<rparr>\<rparr>)]"

text \<open>
  \<^verbatim>\<open>set_movies\<close>, lines 355-359: \<^verbatim>\<open>[o.src for o in movie_objects if o and o.src]\<close>.
\<close>

fun movie_urls :: "video option list \<Rightarrow> string list" where
  "movie_urls [] = []"
| "movie_urls (None # objs) = movie_urls objs"
| "movie_urls (Some o1 # objs) =
     (case src o1 of
        None \<Rightarrow> movie_urls objs
      | Some u \<Rightarrow> if u \<noteq> [] then u # movie_urls objs else movie_urls objs)"

definition set_movies :: "video option list \<Rightarrow> ('e, 'x, 'f, 'w) proc" where
  "set_movies movie_objects = body [
     assign (\<lambda>s. s\<lparr>self := (self s)\<lparr>movies := movie_urls movie_objects\<rparr>\<rparr>)]"



section \<open>Construction\<close>

text \<open>
  \<^verbatim>\<open>Article.__init__\<close>, lines 31-124, one statement of the model for each of the source.
  The object is new, so it has no \<^verbatim>\<open>link_hash\<close> and no \<^verbatim>\<open>download_exception_msg\<close> yet
  (the first statement); \<^verbatim>\<open>config or Configuration()\<close> takes the caller's object or
  creates one; \<^verbatim>\<open>source_url\<close> is tested and then not stored.
\<close>

definition Article_init ::
  "('e, 'x, 'f, 'w) collab \<Rightarrow> html \<Rightarrow> arg \<Rightarrow> arg \<Rightarrow> ref option \<Rightarrow> (string \<times> pyval) list \<Rightarrow>
   ('e, 'x, 'f, 'w) proc" where
  "Article_init C html0 title0 source_url0 config0 kwargs = body [
     assign (\<lambda>s. s\<lparr>self := (self s)\<lparr>link_hash := None, download_exception_msg := None\<rparr>\<rparr>),
     if_then (\<lambda>s. Inr (is_Configuration title0 \<or> is_Configuration source_url0))
       (raise ArticleException),
     assign (\<lambda>s. case config0 of
        Some r \<Rightarrow> s\<lparr>self := (self s)\<lparr>config := r\<rparr>\<rparr>
      | None \<Rightarrow> s\<lparr>config_heap := (config_heap s)(next_ref s := Configuration C),
                  next_ref := Suc (next_ref s),
                  self := (self s)\<lparr>config := next_ref s\<rparr>\<rparr>),
     assign (\<lambda>s. case extend_config (config (self s)) kwargs (config_heap s) of
        (r, heap) \<Rightarrow> s\<lparr>config_heap := heap, self := (self s)\<lparr>config := r\<rparr>\<rparr>),
     assign (\<lambda>s. s\<lparr>self := (self s)\<lparr>extractor := ContentExtractor C (cfg s)\<rparr>\<rparr>),
     assign (\<lambda>s. s\<lparr>self := (self s)\<lparr>title :=
        (case title0 of ArgStr t \<Rightarrow> Some t | _ \<Rightarrow> None)\<rparr>\<rparr>),
     assign (\<lambda>s. s\<lparr>self := (self s)\<lparr>top_img := [], top_image := []\<rparr>\<rparr>),
     assign (\<lambda>s. s\<lparr>self := (self s)\<lparr>meta_img := []\<rparr>\<rparr>),
     assign (\<lambda>s. s\<lparr>self := (self s)\<lparr>imgs := [], images := []\<rparr>\<rparr>),
     assign (\<lambda>s. s\<lparr>self := (self s)\<lparr>movies := []\<rparr>\<rparr>),
     assign (\<lambda>s. s\<lparr>self := (self s)\<lparr>article_text := []\<rparr>\<rparr>),
     assign (\<lambda>s. s\<lparr>self := (self s)\<lparr>nlp_keywords := []\<rparr>\<rparr>),
     assign (\<lambda>s. s\<lparr>self := (self s)\<lparr>meta_keywords := []\<rparr>\<rparr>),
     assign (\<lambda>s. s\<lparr>self := (self s)\<lparr>tags := {}\<rparr>\<rparr>),
     assign (\<lambda>s. s\<lparr>self := (self s)\<lparr>authors := []\<rparr>\<rparr>),
     assign (\<lambda>s. s\<lparr>self := (self s)\<lparr>publish_date := []\<rparr>\<rparr>),
     assign (\<lambda>s. s\<lparr>self := (self s)\<lparr>summary := []\<rparr>\<rparr>),
     assign (\<lambda>s. s\<lparr>self := (self s)\<lparr>html := html0\<rparr>\<rparr>),
     assign (\<lambda>s. s\<lparr>self := (self s)\<lparr>article_html := []\<rparr>\<rparr>),
     assign (\<lambda>s. s\<lparr>self := (self s)\<lparr>is_parsed := False\<rparr>\<rparr>),
     assign (\<lambda>s. s\<lparr>self := (self s)\<lparr>meta_description := []\<rparr>\<rparr>),
     assign (\<lambda>s. s\<lparr>self := (self s)\<lparr>meta_lang := []\<rparr>\<rparr>),
     assign (\<lambda>s. s\<lparr>self := (self s)\<lparr>meta_favicon := []\<rparr>\<rparr>),
     assign (\<lambda>s. s\<lparr>self := (self s)\<lparr>meta_site_name := []\<rparr>\<rparr>),
     assign (\<lambda>s. s\<lparr>self := (self s)\<lparr>meta_data := []\<rparr>\<rparr>),
     assign (\<lambda>s. s\<lparr>self := (self s)\<lparr>canonical_link := []\<rparr>\<rparr>),
     assign (\<lambda>s. s\<lparr>self := (self s)\<lparr>top_node := None\<rparr>\<rparr>),
     assign (\<lambda>s. s\<lparr>self := (self s)\<lparr>clean_top_node := None\<rparr>\<rparr>),
     assign (\<lambda>s. s\<lparr>self := (self s)\<lparr>doc := None\<rparr>\<rparr>),
     assign (\<lambda>s. s\<lparr>self := (self s)\<lparr>clean_doc := None\<rparr>\<rparr>),
     assign (\<lambda>s. s\<lparr>self := (self s)\<lparr>additional_data := []\<rparr>\<rparr>)]"

section \<open>Resources\<close>

text \<open>\<^verbatim>\<open>get_parse_candidate\<close>, lines 241-247.\<close>

definition get_parse_candidate ::
  "('e, 'x, 'f, 'w) collab \<Rightarrow> ('e, 'x, 'f, 'w) state \<Rightarrow> error + string" where
  "get_parse_candidate C s =
     (if html_truthy (html (self s))
      then RawHelper_get_parsing_candidate C (clock s) (html (self s))
      else URLHelper_get_parsing_candidate C (clock s) (html (self s)))"

text \<open>
  \<^verbatim>\<open>get_resource_path\<close>, lines 256-265. The directory is made before \<^verbatim>\<open>self.link_hash\<close>
  is read, which raises \<^verbatim>\<open>AttributeError\<close> on an Article that \<^verbatim>\<open>parse\<close> has not given one.
\<close>

definition get_resource_path ::
  "('e, 'x, 'f, 'w) collab \<Rightarrow> ('e, 'x, 'f, 'w) state \<Rightarrow> (error + string) \<times> ('e, 'x, 'f, 'w) state" where
  "get_resource_path C s =
     (let res_dir_fn = ''article_resources'';
          resource_directory = os_path_join (TOP_DIRECTORY C) res_dir_fn;
          s1 = (if \<not> os_path_exists C (os s) resource_directory
                then s\<lparr>os := os_mkdir C (os s) resource_directory\<rparr> else s)
      in case link_hash (self s1) of
           None \<Rightarrow> (Inl AttributeError, s1)
         | Some h \<Rightarrow> (Inr (os_path_join resource_directory (h @ ''_'')), s1))"


text \<open>
  \<^verbatim>\<open>release_resources\<close>, lines 267-274: the loop removes what \<^verbatim>\<open>glob\<close> found and passes
  over every \<^verbatim>\<open>OSError\<close>.
\<close>

fun remove_all :: "('e, 'x, 'f, 'w) collab \<Rightarrow> string list \<Rightarrow> 'w \<Rightarrow> 'w" where
  "remove_all C [] w = w"
| "remove_all C (fname # fnames) w =
     remove_all C fnames (case os_remove C w fname of None \<Rightarrow> w | Some w' \<Rightarrow> w')"

definition release_resources :: "('e, 'x, 'f, 'w) collab \<Rightarrow> ('e, 'x, 'f, 'w) proc" where
  "release_resources C = body [
     (\<lambda>s. case get_resource_path C s of
        (Inl e, s1) \<Rightarrow> (Raise e, s1)
      | (Inr path, s1) \<Rightarrow>
          (Continue, s1\<lparr>os := remove_all C (glob_glob C (os s1) path) (os s1)\<rparr>))]"


section \<open>\<^verbatim>\<open>parse\<close>\<close>

text \<open>
  Lines 142-147: the tree, its snapshot, and the early return when there is no tree.
\<close>

definition parse_tree :: "('e, 'x, 'f, 'w) collab \<Rightarrow> ('e, 'x, 'f, 'w) proc" where
  "parse_tree C = block [
     (\<lambda>s. case parser_fromstring C (html (self s)) of
        None \<Rightarrow> (Continue, s\<lparr>self := (self s)\<lparr>doc := None\<rparr>\<rparr>)
      | Some e \<Rightarrow> (case alloc_elem e s of
          (r, s1) \<Rightarrow> (Continue, s1\<lparr>self := (self s1)\<lparr>doc := Some r\<rparr>\<rparr>))),
     (\<lambda>s. case deepcopy (doc (self s)) s of
        (r, s1) \<Rightarrow> (Continue, s1\<lparr>self := (self s1)\<lparr>clean_doc := r\<rparr>\<rparr>)),
     if_then (\<lambda>s. Inr (doc (self s) = None)) (ret ())]"

text \<open>
  Lines 150-154: the link hash and the formatter. \<^verbatim>\<open>document_cleaner =
  DocumentCleaner(self.config)\<close> only stores the configuration it is given; it has no
  statement here, and \<open>DocumentCleaner_clean\<close> gets the configuration when it is called.
\<close>

definition parse_setup :: "('e, 'x, 'f, 'w) collab \<Rightarrow> ('e, 'x, 'f, 'w) proc" where
  "parse_setup C = block [
     assign_e (\<lambda>s. case get_parse_candidate C s of
         Inl e \<Rightarrow> Inl e
       | Inr h \<Rightarrow> Inr (s\<lparr>self := (self s)\<lparr>link_hash := Some h\<rparr>\<rparr>)),
     assign (\<lambda>s. s\<lparr>output_formatter := Some (OutputFormatter C (cfg s))\<rparr>)]"

text \<open>Lines 156-184: the fields read off the snapshot.\<close>

definition parse_meta :: "('e, 'x, 'f, 'w) collab \<Rightarrow> ('e, 'x, 'f, 'w) proc" where
  "parse_meta C = block [
     (\<lambda>s. call (set_title
        (get_title C (cfg s) (extractor (self s)) (deref s (clean_doc (self s))))) s),
     (\<lambda>s. call (set_authors
        (Inr (get_authors C (cfg s) (extractor (self s)) (deref s (clean_doc (self s)))))) s),
     (\<lambda>s. call (set_meta_language C
        (get_meta_lang C (cfg s) (extractor (self s)) (deref s (clean_doc (self s))))) s),
     if_then (\<lambda>s. case getattr (cfg s) ''use_meta_language'' of
                    Inl e \<Rightarrow> Inl e | Inr v \<Rightarrow> Inr (truthy v))
       (block [
          assign (\<lambda>s. s\<lparr>self := (self s)\<lparr>extractor :=
            update_language C (cfg s) (extractor (self s)) (meta_lang (self s))\<rparr>\<rparr>),
          (\<lambda>s. case output_formatter s of
             None \<Rightarrow> (Raise UnboundLocalError, s)
           | Some f \<Rightarrow> (Continue, s\<lparr>output_formatter :=
               Some (formatter_update_language C (cfg s) f (meta_lang (self s)))\<rparr>))]),
     (\<lambda>s. call (set_meta_site_name
        (get_meta_site_name C (cfg s) (extractor (self s)) (deref s (clean_doc (self s))))) s),
     (\<lambda>s. call (set_meta_description
        (get_meta_description C (cfg s) (extractor (self s)) (deref s (clean_doc (self s))))) s),
     (\<lambda>s. call (set_tags
        (extract_tags C (cfg s) (extractor (self s)) (deref s (clean_doc (self s))))) s),
     (\<lambda>s. call (set_meta_keywords
        (get_meta_keywords C (cfg s) (extractor (self s)) (deref s (clean_doc (self s))))) s),
     (\<lambda>s. call (set_meta_data
        (get_meta_data C (cfg s) (extractor (self s)) (deref s (clean_doc (self s))))) s)]"

text \<open>
  Line 187: the cleaner changes the working tree in place and returns it. \<^verbatim>\<open>self.doc\<close> is
  not \<^verbatim>\<open>None\<close> here (line 145); on \<^verbatim>\<open>None\<close> an attribute of it would be missing.
\<close>

definition parse_clean :: "('e, 'x, 'f, 'w) collab \<Rightarrow> ('e, 'x, 'f, 'w) proc" where
  "parse_clean C = block [
     (\<lambda>s. case doc (self s) of
        None \<Rightarrow> (Raise AttributeError, s)
      | Some d \<Rightarrow> (Continue,
          s\<lparr>elem_heap := (elem_heap s)(d := DocumentCleaner_clean C (cfg s) (elem_heap s d))\<rparr>))]"

text \<open>
  Lines 191-200, the branch of a selected node: the videos, the cleanup of the node in
  place, its deep copy, and the formatting, which may change the node it is given (the
  second component of \<open>get_formatted\<close> is the node afterwards).
\<close>

definition parse_top_node :: "('e, 'x, 'f, 'w) collab \<Rightarrow> ('e, 'x, 'f, 'w) proc" where
  "parse_top_node C = block [
     (\<lambda>s. case top_node (self s) of
        None \<Rightarrow> (Raise AttributeError, s)
      | Some r \<Rightarrow> call (set_movies (get_videos C (cfg s) (elem_heap s r))) s),
     (\<lambda>s. case top_node (self s) of
        None \<Rightarrow> (Raise AttributeError, s)
      | Some r \<Rightarrow> (Continue,
          s\<lparr>elem_heap := (elem_heap s)
             (r := post_cleanup C (cfg s) (extractor (self s)) (elem_heap s r))\<rparr>)),
     (\<lambda>s. case deepcopy (top_node (self s)) s of
        (r, s1) \<Rightarrow> (Continue, s1\<lparr>self := (self s1)\<lparr>clean_top_node := r\<rparr>\<rparr>)),
     (\<lambda>s. case (output_formatter s, top_node (self s)) of
        (None, _) \<Rightarrow> (Raise UnboundLocalError, s)
      | (Some f, None) \<Rightarrow> (Raise AttributeError, s)
      | (Some f, Some r) \<Rightarrow>
          (case get_formatted C (cfg s) f (elem_heap s r) of
             ((text1, article_html1), node1) \<Rightarrow>
               block [
                 assign (\<lambda>s. s\<lparr>elem_heap := (elem_heap s)(r := node1)\<rparr>),
                 call (set_article_html article_html1),
                 call (set_text text1)] s))]"

text \<open>
  Lines 189-190: the scorer. The node it selects is an object of its own in the element
  heap (the heap does not record that it sits inside the working tree: nothing below reads
  the working tree after the scorer has run).
\<close>

definition parse_best_node :: "('e, 'x, 'f, 'w) collab \<Rightarrow> ('e, 'x, 'f, 'w) proc" where
  "parse_best_node C = block [
     (\<lambda>s. case doc (self s) of
        None \<Rightarrow> (Raise AttributeError, s)
      | Some d \<Rightarrow>
          (case calculate_best_node C (cfg s) (extractor (self s)) (elem_heap s d) of
             None \<Rightarrow> (Continue, s\<lparr>self := (self s)\<lparr>top_node := None\<rparr>\<rparr>)
           | Some n \<Rightarrow> (case alloc_elem n s of
               (r, s1) \<Rightarrow> (Continue, s1\<lparr>self := (self s1)\<lparr>top_node := Some r\<rparr>\<rparr>)))),
     if_then (\<lambda>s. Inr (top_node (self s) \<noteq> None)) (parse_top_node C)]"

text \<open>Lines 202-203.\<close>

definition parse_finish :: "('e, 'x, 'f, 'w) collab \<Rightarrow> ('e, 'x, 'f, 'w) proc" where
  "parse_finish C = block [
     assign (\<lambda>s. s\<lparr>self := (self s)\<lparr>is_parsed := True\<rparr>\<rparr>),
     call (release_resources C)]"

text \<open>\<^verbatim>\<open>parse\<close>, lines 141-203, and \<^verbatim>\<open>build\<close>, lines 126-131.\<close>

definition parse :: "('e, 'x, 'f, 'w) collab \<Rightarrow> ('e, 'x, 'f, 'w) proc" where
  "parse C = body [
     parse_tree C, parse_setup C, parse_meta C, parse_clean C, parse_best_node C,
     parse_finish C]"


section \<open>\<^verbatim>\<open>is_valid_body\<close>\<close>

text \<open>\<^verbatim>\<open>len(xs) < self.config.KEY\<close> and \<^verbatim>\<open>len(xs) > self.config.KEY\<close>.\<close>

definition len_less :: "'a list \<Rightarrow> config \<Rightarrow> string \<Rightarrow> error + bool" where
  "len_less xs c key =
     (case getattr c key of Inl e \<Rightarrow> Inl e
      | Inr v \<Rightarrow> (case as_number v of Inl e \<Rightarrow> Inl e | Inr m \<Rightarrow> Inr (int (length xs) < m)))"

definition len_greater :: "'a list \<Rightarrow> config \<Rightarrow> string \<Rightarrow> error + bool" where
  "len_greater xs c key =
     (case getattr c key of Inl e \<Rightarrow> Inl e
      | Inr v \<Rightarrow> (case as_number v of Inl e \<Rightarrow> Inl e | Inr m \<Rightarrow> Inr (m < int (length xs))))"

text \<open>
  Lines 205-238. \<^verbatim>\<open>and\<close> evaluates its right operand only when the left one holds, so
  \<^verbatim>\<open>MIN_WORD_COUNT\<close> is not read in the first test unless the meta type is \<^verbatim>\<open>article\<close>.
\<close>

definition is_valid_body ::
  "('e, 'x, 'f, 'w) collab \<Rightarrow> ('e, 'x, 'f, 'w) state \<Rightarrow> bool outcome \<times> ('e, 'x, 'f, 'w) state" where
  "is_valid_body C = block [
     if_then (\<lambda>s. Inr (\<not> is_parsed (self s))) (raise ArticleException),
     (\<lambda>s. let meta_type = get_meta_type C (cfg s) (extractor (self s)) (deref s (clean_doc (self s)));
               wordcount = py_split (article_text (self s)) CHR '' '';
               sentcount = py_split (article_text (self s)) CHR ''.''
           in block [
             if_then (\<lambda>s. if meta_type = ''article''
                           then len_greater wordcount (cfg s) ''MIN_WORD_COUNT'' else Inr False)
               (ret True),
             if_then (\<lambda>s. Inr (case title (self s) of
                                  None \<Rightarrow> True
                                | Some t \<Rightarrow> length (py_split t CHR '' '') < 2))
               (ret False),
             if_then (\<lambda>s. len_less wordcount (cfg s) ''MIN_WORD_COUNT'') (ret False),
             if_then (\<lambda>s. len_less sentcount (cfg s) ''MIN_SENT_COUNT'') (ret False),
             if_then (\<lambda>s. Inr (html (self s) = HtmlNone \<or> html (self s) = HtmlStr []))
               (ret False),
             ret True] s)]"


section \<open>The Article as a state machine\<close>






section \<open>A small instance\<close>

text \<open>
  An instance of the collaborators on which the definitions can be run: an element is the
  string it was parsed from, the scorer selects every tree but \<^verbatim>\<open><img>\<close>, the formatter
  gives the element's string as text and as HTML and leaves the node it worked on empty,
  and the file system is the list of the paths that exist.
\<close>

definition toy_config :: config where
  "toy_config = map_of [
     (''MAX_TITLE'', PInt 200), (''MAX_TEXT'', PInt 100000), (''MAX_KEYWORDS'', PInt 35),
     (''MAX_AUTHORS'', PInt 10), (''MAX_SUMMARY'', PInt 5000), (''MIN_WORD_COUNT'', PInt 300),
     (''MIN_SENT_COUNT'', PInt 7), (''use_meta_language'', PBool True),
     (''language'', PStr ''en'')]"

definition toy_collab :: "(string, string, string, string list) collab" where
  "toy_collab = \<lparr>
     Configuration = toy_config,
     parser_fromstring = (\<lambda>h. case h of
        HtmlNone \<Rightarrow> None
      | HtmlStr t \<Rightarrow> if t = [] then None else Some t
      | HtmlBytes b \<Rightarrow> if b = [] then None else Some b),
     parser_get_unicode_html = (\<lambda>b. b),
     ContentExtractor = (\<lambda>c. ''en''),
     get_title = (\<lambda>c x e. []),
     get_authors = (\<lambda>c x e. []),
     get_meta_lang = (\<lambda>c x e. None),
     update_language = (\<lambda>c x l. if l = [] then x else l),
     get_meta_site_name = (\<lambda>c x e. []),
     get_meta_description = (\<lambda>c x e. []),
     extract_tags = (\<lambda>c x e. {}),
     get_meta_keywords = (\<lambda>c x e. []),
     get_meta_data = (\<lambda>c x e. []),
     get_meta_type = (\<lambda>c x e. []),
     calculate_best_node = (\<lambda>c x e. if e = ''<img>'' then None else Some e),
     post_cleanup = (\<lambda>c x e. e),
     DocumentCleaner_clean = (\<lambda>c e. e),
     OutputFormatter = (\<lambda>c. ''en''),
     formatter_update_language = (\<lambda>c f l. if l = [] then f else l),
     get_formatted = (\<lambda>c f e. ((e, e), [])),
     get_videos = (\<lambda>c e. []),
     md5_hexdigest = (\<lambda>b. ''0''),
     encode_utf8 = (\<lambda>t. t),
     stopword_files = [''stopwords-en.txt''],
     TOP_DIRECTORY = ''/tmp'',
     os_path_exists = (\<lambda>w p. p \<in> set w),
     os_mkdir = (\<lambda>w p. p # w),
     glob_glob = (\<lambda>w p. if p \<in> set w then [p] else []),
     os_remove = (\<lambda>w p. None),
     open_read = (\<lambda>w p. Inl ''No such file or directory'')\<rparr>"

definition toy_article :: "string article" where
  "toy_article = \<lparr>
     config = 0, extractor = ''en'', title = None, top_img = [], top_image = [],
     meta_img = [], imgs = [], images = [], movies = [], article_text = [],
     nlp_keywords = [], meta_keywords = [], tags = {}, authors = [], publish_date = [],
     summary = [], html = HtmlNone, article_html = [], is_parsed = False,
     meta_description = [], meta_lang = [], meta_favicon = [], meta_site_name = [],
     meta_data = [], canonical_link = [], top_node = None, clean_top_node = None,
     doc = None, clean_doc = None, additional_data = [], link_hash = None,
     download_exception_msg = None\<rparr>"

definition toy_state :: "(string, string, string, string list) state" where
  "toy_state = \<lparr>
     self = toy_article, config_heap = (\<lambda>r. toy_config), elem_heap = (\<lambda>r. []),
     next_ref = 1, os = [], clock = ''0.0'', output_formatter = None\<rparr>"


text \<open>
  \<^verbatim>\<open>Article(html0, title=title0, **kwargs)\<close> in that instance, with a configuration of
  its own: the state after the constructor.
\<close>

definition toy_init ::
  "html \<Rightarrow> arg \<Rightarrow> (string \<times> pyval) list \<Rightarrow> (string, string, string, string list) state" where
  "toy_init html0 title0 kwargs =
     snd (Article_init toy_collab html0 title0 ArgNone None kwargs toy_state)"

section \<open>Notions used in the properties\<close>

text \<open>
  A statement keeps an observation \<open>f\<close> of the state when \<open>f\<close> has the same value after
  it as before, whatever the outcome.
\<close>

definition keeps :: "('s \<Rightarrow> 'a) \<Rightarrow> ('s \<Rightarrow> 'r outcome \<times> 's) \<Rightarrow> bool" where
  "keeps f c = (\<forall>s. f (snd (c s)) = f s)"

text \<open>
  Two runs. A statement follows an observation \<open>v\<close> to \<open>v'\<close> (with result \<open>w\<close>) when
  two states that \<open>v\<close> cannot tell apart give the same outcome and end in states that
  \<open>w\<close> cannot tell apart, and that \<open>v'\<close> cannot tell apart when the statement falls
  through to the next one.
\<close>

definition follows ::
  "('s \<Rightarrow> 'a) \<Rightarrow> ('s \<Rightarrow> 'b) \<Rightarrow> ('s \<Rightarrow> 'c) \<Rightarrow> ('s \<Rightarrow> 'r outcome \<times> 's) \<Rightarrow> bool" where
  "follows v v' w c =
     (\<forall>s t. v s = v t \<longrightarrow>
        fst (c s) = fst (c t) \<and> w (snd (c s)) = w (snd (c t)) \<and>
        (fst (c s) = Continue \<longrightarrow> v' (snd (c s)) = v' (snd (c t))))"

text \<open>
  The observations of a state that the phases of \<^verbatim>\<open>parse\<close> read: the result (the two
  strings), what \<^verbatim>\<open>parse\<close> reads of a new Article, and what is read after the tree is
  built, after the formatter is made, by the scorer, and by the last two lines. Addresses,
  the clock, the file system and the title are in none of them.
\<close>

definition obs_result where
  "obs_result s = (article_text (self s), article_html (self s))"

definition obs_input where
  "obs_input s = (html (self s), cfg s, extractor (self s), meta_lang (self s), obs_result s)"

definition obs_tree where
  "obs_tree s = (obs_input s, deref s (doc (self s)), deref s (clean_doc (self s)))"

definition obs_meta where
  "obs_meta s = (obs_tree s, output_formatter s, link_hash (self s) = None)"

definition obs_scoring where
  "obs_scoring s =
     (cfg s, extractor (self s), deref s (doc (self s)), output_formatter s,
      link_hash (self s) = None, obs_result s)"

definition obs_finish where
  "obs_finish s = (link_hash (self s) = None, obs_result s)"

text \<open>
  What lines 156-184 do not write: the heaps, the operating system, and the fields of the
  Article other than the metadata.
\<close>

definition body_view where
  "body_view s =
     (config_heap s, elem_heap s, next_ref s, os s, clock s,
      (config (self s), html (self s), article_text (self s), article_html (self s),
       is_parsed (self s), link_hash (self s)),
      (top_node (self s), clean_top_node (self s), doc (self s), clean_doc (self s),
       movies (self s)))"

text \<open>
  Following the spec's words (section 4.4, "paragraphs joined with a single blank line",
  "truncation occurs at a paragraph boundary ... never mid-word"): a position of the
  formatted text is a paragraph boundary when it is the start, the end, or where a blank
  line begins; it is in the middle of a word when the characters on both sides of it are
  not white space. These two are the spec's notions, not the code's.
\<close>

definition spec_paragraph_boundary :: "string \<Rightarrow> nat \<Rightarrow> bool" where
  "spec_paragraph_boundary t k =
     (k = 0 \<or> k = length t \<or> take 2 (drop k t) = [CHR 0x0A, CHR 0x0A])"

definition spec_mid_word :: "string \<Rightarrow> nat \<Rightarrow> bool" where
  "spec_mid_word t k =
     (0 < k \<and> k < length t \<and> \<not> py_isspace (t ! (k - 1)) \<and> \<not> py_isspace (t ! k))"

section \<open>Statements, blocks and the phases of \<^verbatim>\<open>parse\<close>\<close>

lemma py_split_nonempty: "py_split s sep \<noteq> []"
  by (induction s) (auto split: list.splits)

lemma block_append:
  "block (cs @ ds) s = (case block cs s of (Continue, s') \<Rightarrow> block ds s' | (r, s') \<Rightarrow> (r, s'))"
  by (induction cs arbitrary: s) (auto split: prod.splits outcome.splits)

lemma keepsI: "(\<And>s. f (snd (c s)) = f s) \<Longrightarrow> keeps f c"
  by (simp add: keeps_def)

lemma keepsD: "keeps f c \<Longrightarrow> f (snd (c s)) = f s"
  by (simp add: keeps_def)

lemma keeps_block_set: "(\<And>c. c \<in> set cs \<Longrightarrow> keeps f c) \<Longrightarrow> keeps f (block cs)"
proof (induction cs)
  case Nil
  show ?case by (simp add: keeps_def)
next
  case (Cons c cs)
  have c: "keeps f c" and cs: "keeps f (block cs)"
    using Cons by simp_all
  show ?case
  proof (rule keepsI)
    fix s
    obtain r s1 where r: "c s = (r, s1)" by (cases "c s")
    have 1: "f s1 = f s" using keepsD[OF c, of s] r by simp
    show "f (snd (block (c # cs) s)) = f s"
      using keepsD[OF cs, of s1] 1 r by (cases r) simp_all
  qed
qed

lemma snd_body: "snd (body cs s) = snd (block cs s)"
  by (cases "block cs s"; cases "fst (block cs s)") (simp_all add: body_def)

lemma snd_call: "snd (call m s) = snd (m s)"
  by (cases "m s"; cases "fst (m s)") (simp_all add: call_def)

lemma keeps_body: "(\<And>c. c \<in> set cs \<Longrightarrow> keeps f c) \<Longrightarrow> keeps f (body cs)"
  using keeps_block_set[of cs f] by (simp add: keeps_def snd_body)

lemma keeps_call: "keeps f m \<Longrightarrow> keeps f (call m)"
  by (simp add: keeps_def snd_call)


lemma keeps_assign: "(\<And>s. f (g s) = f s) \<Longrightarrow> keeps f (assign g)"
  by (simp add: keeps_def assign_def)

lemma keeps_assign_e: "(\<And>s s'. g s = Inr s' \<Longrightarrow> f s' = f s) \<Longrightarrow> keeps f (assign_e g)"
  by (auto simp: keeps_def assign_e_def split: sum.splits)



lemma keeps_arg: "(\<And>v. keeps f (c v)) \<Longrightarrow> keeps f (\<lambda>s. c (g s) s)"
  by (simp add: keeps_def)


lemma block_assign: "block (assign g # cs) s = block cs (g s)"
  by (simp add: assign_def)

lemma keeps_block: "list_all (keeps f) cs \<Longrightarrow> keeps f (block cs)"
  by (rule keeps_block_set) (simp add: list_all_iff)

lemma keeps_body_all: "list_all (keeps f) cs \<Longrightarrow> keeps f (body cs)"
  by (rule keeps_body) (simp add: list_all_iff)

lemmas stmt_defs = body_def call_def assign_def assign_e_def if_then_def raise_def ret_def

lemmas meta_setters = set_title_def set_authors_def set_meta_language_def
  set_meta_site_name_def set_meta_description_def set_tags_def set_meta_keywords_def
  set_meta_data_def

lemma parse_tree_eq:
  "parse_tree C s =
     (case parser_fromstring C (html (self s)) of
        None \<Rightarrow> (Return (), s\<lparr>self := (self s)\<lparr>doc := None, clean_doc := None\<rparr>\<rparr>)
      | Some e \<Rightarrow> (Continue,
          s\<lparr>elem_heap := (elem_heap s)(next_ref s := e, Suc (next_ref s) := e),
            next_ref := Suc (Suc (next_ref s)),
            self := (self s)\<lparr>doc := Some (next_ref s), clean_doc := Some (Suc (next_ref s))\<rparr>\<rparr>))"
  by (simp add: parse_tree_def alloc_elem_def deepcopy_def if_then_def ret_def split: option.splits)

lemma parse_setup_eq:
  "parse_setup C s =
     (case get_parse_candidate C s of
        Inl e \<Rightarrow> (Raise e, s)
      | Inr h \<Rightarrow> (Continue,
          s\<lparr>self := (self s)\<lparr>link_hash := Some h\<rparr>,
            output_formatter := Some (OutputFormatter C (cfg s))\<rparr>))"
  by (simp add: parse_setup_def assign_e_def assign_def cfg_def split: sum.splits)

lemma parse_clean_eq:
  "parse_clean C s =
     (case doc (self s) of
        None \<Rightarrow> (Raise AttributeError, s)
      | Some d \<Rightarrow> (Continue,
          s\<lparr>elem_heap := (elem_heap s)(d := DocumentCleaner_clean C (cfg s) (elem_heap s d))\<rparr>))"
  by (simp add: parse_clean_def split: option.splits)

lemma keeps_parse_meta: "keeps body_view (parse_meta C)"
  unfolding parse_meta_def
  apply (rule keeps_block)
  apply (simp only: list.pred_inject)
  apply (intro conjI TrueI)
  apply (auto simp: keeps_def body_view_def stmt_defs meta_setters cfg_slice_def
       split: sum.splits option.splits bool.splits prod.splits outcome.splits)
  done


lemma keeps_parse_meta_formatter: "keeps (\<lambda>s. output_formatter s = None) (parse_meta C)"
  unfolding parse_meta_def
  apply (rule keeps_block)
  apply (simp only: list.pred_inject)
  apply (intro conjI TrueI)
  apply (auto simp: keeps_def stmt_defs meta_setters cfg_slice_def
       split: sum.splits option.splits bool.splits prod.splits outcome.splits)
  done

lemma set_text_eq:
  "set_text t s =
     (case cfg_slice (cfg s) ''MAX_TEXT'' t of
        Inl e \<Rightarrow> (Raise e, s)
      | Inr t1 \<Rightarrow> (Return (),
          if t1 \<noteq> [] then s\<lparr>self := (self s)\<lparr>article_text := t1\<rparr>\<rparr> else s))"
  by (simp add: set_text_def stmt_defs split: sum.splits)

lemma set_article_html_eq:
  "set_article_html a s =
     (Return (), if a \<noteq> [] then s\<lparr>self := (self s)\<lparr>article_html := a\<rparr>\<rparr> else s)"
  by (simp add: set_article_html_def stmt_defs)

lemma set_movies_eq:
  "set_movies v s = (Return (), s\<lparr>self := (self s)\<lparr>movies := movie_urls v\<rparr>\<rparr>)"
  by (simp add: set_movies_def stmt_defs)

lemma parse_top_node_effect:
  assumes "top_node (self s) = Some r" and "output_formatter s = Some f" and "r \<noteq> next_ref s"
    and "pc = post_cleanup C (cfg s) (extractor (self s)) (elem_heap s r)"
    and "get_formatted C (cfg s) f pc = ((t, a), n1)"
    and "s' = snd (parse_top_node C s)"
  shows "fst (parse_top_node C s) =
           (case cfg_slice (cfg s) ''MAX_TEXT'' t of Inl e \<Rightarrow> Raise e | Inr t1 \<Rightarrow> Continue)"
    and "clean_top_node (self s') = Some (next_ref s)"
    and "top_node (self s') = Some r"
    and "elem_heap s' = (elem_heap s)(next_ref s := pc, r := n1)"
    and "article_html (self s') = (if a \<noteq> [] then a else article_html (self s))"
    and "article_text (self s') =
           (case cfg_slice (cfg s) ''MAX_TEXT'' t of
              Inl e \<Rightarrow> article_text (self s)
            | Inr t1 \<Rightarrow> if t1 \<noteq> [] then t1 else article_text (self s))"
    and "is_parsed (self s') = is_parsed (self s)"
    and "link_hash (self s') = link_hash (self s)"
    and "doc (self s') = doc (self s)"
  using assms
  by (simp_all add: parse_top_node_def set_movies_eq set_article_html_eq set_text_eq call_def
      alloc_elem_def deepcopy_def cfg_def assign_def split: sum.splits)

lemma parse_best_node_eq:
  assumes "doc (self s) = Some d"
  shows "parse_best_node C s =
     (case calculate_best_node C (cfg s) (extractor (self s)) (elem_heap s d) of
        None \<Rightarrow> (Continue, s\<lparr>self := (self s)\<lparr>top_node := None\<rparr>\<rparr>)
      | Some n \<Rightarrow> parse_top_node C
          (s\<lparr>elem_heap := (elem_heap s)(next_ref s := n), next_ref := Suc (next_ref s),
             self := (self s)\<lparr>top_node := Some (next_ref s)\<rparr>\<rparr>))"
  using assms
  by (simp add: parse_best_node_def alloc_elem_def if_then_def
      split: option.splits prod.splits outcome.splits)

lemma release_resources_eq:
  assumes "link_hash (self s) = Some h"
  shows "\<exists>w. release_resources C s = (Return (), s\<lparr>os := w\<rparr>)"
  using assms
  by (auto simp: release_resources_def get_resource_path_def body_def Let_def)

lemma parse_finish_eq:
  assumes "link_hash (self s) = Some h"
  shows "\<exists>w. parse_finish C s = (Continue, s\<lparr>self := (self s)\<lparr>is_parsed := True\<rparr>, os := w\<rparr>)"
proof -
  obtain w where "release_resources C (s\<lparr>self := (self s)\<lparr>is_parsed := True\<rparr>\<rparr>) =
      (Return (), s\<lparr>self := (self s)\<lparr>is_parsed := True\<rparr>, os := w\<rparr>)"
    using release_resources_eq[of "s\<lparr>self := (self s)\<lparr>is_parsed := True\<rparr>\<rparr>" h C] assms by auto
  then have "parse_finish C s = (Continue, s\<lparr>self := (self s)\<lparr>is_parsed := True\<rparr>, os := w\<rparr>)"
    by (simp add: parse_finish_def assign_def call_def)
  then show ?thesis by (rule exI)
qed


lemma block_cons_eq:
  "block (c # cs) s = (r, s') \<longleftrightarrow>
     (\<exists>s1. c s = (Continue, s1) \<and> block cs s1 = (r, s')) \<or> (r \<noteq> Continue \<and> c s = (r, s'))"
proof -
  obtain r1 s1 where c: "c s = (r1, s1)" by (cases "c s")
  show ?thesis
    unfolding block.simps c by (cases r1) auto
qed







lemma block_singleton_Continue: "block [] s = (r, s') \<longleftrightarrow> r = Continue \<and> s' = s"
  by auto

lemma prefix_phases:
  assumes "block [parse_tree C, parse_setup C, parse_meta C, parse_clean C] s = (Continue, s1)"
  obtains sA sB sC where "parse_tree C s = (Continue, sA)" and "parse_setup C sA = (Continue, sB)"
    and "parse_meta C sB = (Continue, sC)" and "parse_clean C sC = (Continue, s1)"
  using assms by (auto simp: block_cons_eq simp del: block.simps(2))

lemma prefix_Continue:
  assumes "block [parse_tree C, parse_setup C, parse_meta C, parse_clean C] s = (Continue, s1)"
  shows "\<exists>d h f. doc (self s1) = Some d \<and> link_hash (self s1) = Some h \<and>
           output_formatter s1 = Some f"
    and "article_text (self s1) = article_text (self s)"
    and "article_html (self s1) = article_html (self s)"
    and "is_parsed (self s1) = is_parsed (self s)"
    and "top_node (self s1) = top_node (self s)"
    and "clean_top_node (self s1) = clean_top_node (self s)"
proof -
  obtain sA sB sC where A: "parse_tree C s = (Continue, sA)" and B: "parse_setup C sA = (Continue, sB)"
    and M: "parse_meta C sB = (Continue, sC)" and K: "parse_clean C sC = (Continue, s1)"
    using assms by (rule prefix_phases)
  obtain e where sA: "sA = s\<lparr>elem_heap := (elem_heap s)(next_ref s := e, Suc (next_ref s) := e),
            next_ref := Suc (Suc (next_ref s)),
            self := (self s)\<lparr>doc := Some (next_ref s), clean_doc := Some (Suc (next_ref s))\<rparr>\<rparr>"
    using A by (auto simp: parse_tree_eq split: option.splits)
  obtain h where sB: "sB = sA\<lparr>self := (self sA)\<lparr>link_hash := Some h\<rparr>,
            output_formatter := Some (OutputFormatter C (cfg sA))\<rparr>"
    using B by (auto simp: parse_setup_eq split: sum.splits)
  have bv: "body_view sC = body_view sB"
    using keepsD[OF keeps_parse_meta, of C sB] M by simp
  have fo: "(output_formatter sC = None) = (output_formatter sB = None)"
    using keepsD[OF keeps_parse_meta_formatter, of C sB] M by simp
  obtain d where s1: "doc (self sC) = Some d"
     "s1 = sC\<lparr>elem_heap := (elem_heap sC)(d := DocumentCleaner_clean C (cfg sC) (elem_heap sC d))\<rparr>"
    using K by (auto simp: parse_clean_eq split: option.splits)
  show "\<exists>d h f. doc (self s1) = Some d \<and> link_hash (self s1) = Some h \<and>
           output_formatter s1 = Some f"
    using bv fo by (auto simp: s1 sB sA body_view_def)
  show "article_text (self s1) = article_text (self s)"
    using bv by (simp add: s1 sB sA body_view_def)
  show "article_html (self s1) = article_html (self s)"
    using bv by (simp add: s1 sB sA body_view_def)
  show "is_parsed (self s1) = is_parsed (self s)"
    using bv by (simp add: s1 sB sA body_view_def)
  show "top_node (self s1) = top_node (self s)"
    using bv by (simp add: s1 sB sA body_view_def)
  show "clean_top_node (self s1) = clean_top_node (self s)"
    using bv by (simp add: s1 sB sA body_view_def)
qed

lemma parse_split:
  "parse C s =
     (case block [parse_tree C, parse_setup C, parse_meta C, parse_clean C] s of
        (Continue, s1) \<Rightarrow>
          (case block [parse_best_node C, parse_finish C] s1 of
             (Continue, s2) \<Rightarrow> (Return (), s2) | (r, s2) \<Rightarrow> (r, s2))
      | (r, s1) \<Rightarrow> (r, s1))"
proof -
  have "parse C = body ([parse_tree C, parse_setup C, parse_meta C, parse_clean C] @
      [parse_best_node C, parse_finish C])"
    by (simp add: parse_def)
  then show ?thesis
    unfolding body_def block_append
    by (simp split: prod.splits outcome.splits)
qed


lemma suffix_some:
  assumes "doc (self s1) = Some d" and "link_hash (self s1) = Some h"
    and "output_formatter s1 = Some f"
    and "calculate_best_node C (cfg s1) (extractor (self s1)) (elem_heap s1 d) = Some n"
    and "pc = post_cleanup C (cfg s1) (extractor (self s1)) n"
    and "get_formatted C (cfg s1) f pc = ((t, a), n1)"
    and "block [parse_best_node C, parse_finish C] s1 = (r, s2)"
  shows "r = (case cfg_slice (cfg s1) ''MAX_TEXT'' t of Inl e \<Rightarrow> Raise e | Inr t1 \<Rightarrow> Continue)"
    and "top_node (self s2) = Some (next_ref s1)"
    and "clean_top_node (self s2) = Some (Suc (next_ref s1))"
    and "elem_heap s2 = (elem_heap s1)(next_ref s1 := n1, Suc (next_ref s1) := pc)"
    and "article_html (self s2) = (if a \<noteq> [] then a else article_html (self s1))"
    and "article_text (self s2) =
           (case cfg_slice (cfg s1) ''MAX_TEXT'' t of
              Inl e \<Rightarrow> article_text (self s1)
            | Inr t1 \<Rightarrow> if t1 \<noteq> [] then t1 else article_text (self s1))"
    and "is_parsed (self s2) = (is_parsed (self s1) \<or> r = Continue)"
    and "doc (self s2) = doc (self s1)"
proof -
  let ?s = "s1\<lparr>elem_heap := (elem_heap s1)(next_ref s1 := n), next_ref := Suc (next_ref s1),
             self := (self s1)\<lparr>top_node := Some (next_ref s1)\<rparr>\<rparr>"
  have b: "parse_best_node C s1 = parse_top_node C ?s"
    using assms(1,4) by (simp add: parse_best_node_eq)
  obtain r3 s3 where t3: "parse_top_node C ?s = (r3, s3)" by (cases "parse_top_node C ?s")
  have c: "cfg ?s = cfg s1" by (simp add: cfg_def)
  note eff = parse_top_node_effect[of ?s "next_ref s1" f pc C t a n1 s3, unfolded c]
  have pre: "top_node (self ?s) = Some (next_ref s1)" "output_formatter ?s = Some f"
    "next_ref s1 \<noteq> next_ref ?s" "pc = post_cleanup C (cfg s1) (extractor (self ?s)) (elem_heap ?s (next_ref s1))"
    "get_formatted C (cfg s1) f pc = ((t, a), n1)" "s3 = snd (parse_top_node C ?s)"
    using assms(3,5,6) t3 by simp_all
  note e = eff[OF pre]
  have r3: "r3 = (case cfg_slice (cfg s1) ''MAX_TEXT'' t of Inl e \<Rightarrow> Raise e | Inr t1 \<Rightarrow> Continue)"
    using e(1) t3 by simp
  have lh: "link_hash (self s3) = Some h" using e(8) assms(2) by simp
  obtain w where fin: "parse_finish C s3 = (Continue, s3\<lparr>self := (self s3)\<lparr>is_parsed := True\<rparr>, os := w\<rparr>)"
    using parse_finish_eq[OF lh] by auto
  have blk: "block [parse_best_node C, parse_finish C] s1 =
      (case r3 of Continue \<Rightarrow> (Continue, s3\<lparr>self := (self s3)\<lparr>is_parsed := True\<rparr>, os := w\<rparr>)
                | _ \<Rightarrow> (r3, s3))"
    by (cases r3) (simp_all add: b t3 fin)
  have res: "(r, s2) = (case r3 of Continue \<Rightarrow> (Continue, s3\<lparr>self := (self s3)\<lparr>is_parsed := True\<rparr>, os := w\<rparr>)
                | _ \<Rightarrow> (r3, s3))"
    using assms(7) blk by simp
  show "r = (case cfg_slice (cfg s1) ''MAX_TEXT'' t of Inl e \<Rightarrow> Raise e | Inr t1 \<Rightarrow> Continue)"
    using res r3 by (auto split: sum.splits)
  show "top_node (self s2) = Some (next_ref s1)"
    using res r3 e(3) by (auto split: sum.splits)
  show "clean_top_node (self s2) = Some (Suc (next_ref s1))"
    using res r3 e(2) by (auto split: sum.splits)
  show "elem_heap s2 = (elem_heap s1)(next_ref s1 := n1, Suc (next_ref s1) := pc)"
    using res r3 e(4) by (auto split: sum.splits)
  show "article_html (self s2) = (if a \<noteq> [] then a else article_html (self s1))"
    using res r3 e(5) by (auto split: sum.splits)
  show "article_text (self s2) =
           (case cfg_slice (cfg s1) ''MAX_TEXT'' t of
              Inl e \<Rightarrow> article_text (self s1)
            | Inr t1 \<Rightarrow> if t1 \<noteq> [] then t1 else article_text (self s1))"
    using res r3 e(6) by (auto split: sum.splits)
  show "is_parsed (self s2) = (is_parsed (self s1) \<or> r = Continue)"
    using res r3 e(7) by (auto split: sum.splits)
  show "doc (self s2) = doc (self s1)"
    using res r3 e(9) by (auto split: sum.splits)
qed










lemma Article_init_guard_aux:
  "fst (Article_init C html0 title0 source_url0 config0 kwargs s) =
     (if is_Configuration title0 \<or> is_Configuration source_url0
      then Raise ArticleException else Return ())"
  by (simp add: Article_init_def body_def assign_def if_then_def raise_def)









lemma Article_init_fields:
  assumes "fst (Article_init C html0 title0 source_url0 config0 kwargs s0) = Return ()"
    and "s = snd (Article_init C html0 title0 source_url0 config0 kwargs s0)"
  shows "\<not> is_parsed (self s)" and "html (self s) = html0"
    and "title (self s) = (case title0 of ArgStr t \<Rightarrow> Some t | _ \<Rightarrow> None)"
    and "article_text (self s) = []" and "article_html (self s) = []"
    and "top_node (self s) = None" and "clean_top_node (self s) = None"
    and "meta_lang (self s) = []" and "link_hash (self s) = None"
    and "cfg s = extend_config_loop kwargs
           (case config0 of None \<Rightarrow> Configuration C | Some r \<Rightarrow> config_heap s0 r)"
    and "extractor (self s) = ContentExtractor C (cfg s)"
proof -
  have g: "\<not> (is_Configuration title0 \<or> is_Configuration source_url0)"
    using assms(1) unfolding Article_init_guard_aux by (simp split: if_splits)
  show "\<not> is_parsed (self s)" and "html (self s) = html0"
    and "title (self s) = (case title0 of ArgStr t \<Rightarrow> Some t | _ \<Rightarrow> None)"
    and "article_text (self s) = []" and "article_html (self s) = []"
    and "top_node (self s) = None" and "clean_top_node (self s) = None"
    and "meta_lang (self s) = []" and "link_hash (self s) = None"
    and "cfg s = extend_config_loop kwargs
           (case config0 of None \<Rightarrow> Configuration C | Some r \<Rightarrow> config_heap s0 r)"
    and "extractor (self s) = ContentExtractor C (cfg s)"
    using g unfolding assms(2)
    by (simp_all add: Article_init_def body_def assign_def if_then_def raise_def cfg_def
        extend_config_def split: option.splits)
qed

lemma cfg_slice_PInt:
  "c key = Some (PInt m) \<Longrightarrow> 0 \<le> m \<Longrightarrow> cfg_slice c key xs = Inr (take (nat m) xs)"
  by (simp add: cfg_slice_def getattr_def)

lemmas init_eval = toy_init_def Article_init_def body_def assign_def if_then_def raise_def cfg_def
   extend_config_def toy_state_def toy_article_def

lemmas phase_eval = toy_collab_def toy_config_def parse_tree_eq parse_setup_eq parse_clean_eq
     parse_meta_def stmt_defs meta_setters cfg_def deref_def getattr_def
     get_parse_candidate_def RawHelper_get_parsing_candidate_def py_strip_def py_isspace_def

section \<open>Two runs of \<^verbatim>\<open>parse\<close>\<close>

lemma followsI:
  assumes "\<And>s t. v s = v t \<Longrightarrow> fst (c s) = fst (c t)"
    and "\<And>s t. v s = v t \<Longrightarrow> w (snd (c s)) = w (snd (c t))"
    and "\<And>s t. v s = v t \<Longrightarrow> fst (c s) = Continue \<Longrightarrow> v' (snd (c s)) = v' (snd (c t))"
  shows "follows v v' w c"
  unfolding follows_def
proof (intro allI impI conjI)
  fix s t assume "v s = v t"
  then show "fst (c s) = fst (c t)" by (rule assms(1))
next
  fix s t assume "v s = v t"
  then show "w (snd (c s)) = w (snd (c t))" by (rule assms(2))
next
  fix s t assume "v s = v t" and "fst (c s) = Continue"
  then show "v' (snd (c s)) = v' (snd (c t))" by (rule assms(3))
qed

lemma followsD:
  assumes "follows v v' w c" and "v s = v t"
  shows "fst (c s) = fst (c t)" and "w (snd (c s)) = w (snd (c t))"
    and "fst (c s) = Continue \<Longrightarrow> v' (snd (c s)) = v' (snd (c t))"
proof -
  have a: "fst (c s) = fst (c t) \<and> w (snd (c s)) = w (snd (c t)) \<and>
        (fst (c s) = Continue \<longrightarrow> v' (snd (c s)) = v' (snd (c t)))"
    using assms(1)[unfolded follows_def, rule_format, OF assms(2)] .
  show "fst (c s) = fst (c t)" using a by (rule conjunct1)
  show "w (snd (c s)) = w (snd (c t))" using a by (elim conjE)
  show "fst (c s) = Continue \<Longrightarrow> v' (snd (c s)) = v' (snd (c t))" using a by (elim conjE impE)
qed

lemma follows_nil:
  assumes "\<And>s t. v s = v t \<Longrightarrow> w s = w t"
  shows "follows v v w (block [])"
proof (rule followsI)
  fix s t :: 'a
  show "fst (block [] s) = fst (block [] t)" by simp
  assume v: "v s = v t"
  show "w (snd (block [] s)) = w (snd (block [] t))"
    unfolding block.simps snd_conv using v by (rule assms)
  show "v (snd (block [] s)) = v (snd (block [] t))"
    unfolding block.simps snd_conv by (rule v)
qed

lemma follows_cons:
  assumes c: "follows v v1 w c" and cs: "follows v1 v' w (block cs)"
  shows "follows v v' w (block (c # cs))"
proof -
  have main: "fst (block (c # cs) s) = fst (block (c # cs) t) \<and>
      w (snd (block (c # cs) s)) = w (snd (block (c # cs) t)) \<and>
      (fst (block (c # cs) s) = Continue \<longrightarrow>
         v' (snd (block (c # cs) s)) = v' (snd (block (c # cs) t)))"
    if v: "v s = v t" for s t
  proof -
    obtain r s1 where s1: "c s = (r, s1)" by (cases "c s")
    obtain r' t1 where t1: "c t = (r', t1)" by (cases "c t")
    have rr: "r' = r" using followsD(1)[OF c v] s1 t1 by simp
    have ww: "w s1 = w t1" using followsD(2)[OF c v] s1 t1 by simp
    show ?thesis
    proof (cases r)
      case Continue
      have v1: "v1 s1 = v1 t1" using followsD(3)[OF c v] s1 t1 Continue by simp
      have bs: "block (c # cs) s = block cs s1" by (simp add: s1 Continue)
      have bt: "block (c # cs) t = block cs t1" using rr by (simp add: t1 Continue)
      show ?thesis
        unfolding bs bt
        by (intro conjI impI followsD(1)[OF cs v1] followsD(2)[OF cs v1] followsD(3)[OF cs v1])
    next
      case (Return u)
      have bs: "block (c # cs) s = (Return u, s1)" by (simp add: s1 Return)
      have bt: "block (c # cs) t = (Return u, t1)" using rr by (simp add: t1 Return)
      show ?thesis unfolding bs bt using ww by simp
    next
      case (Raise e)
      have bs: "block (c # cs) s = (Raise e, s1)" by (simp add: s1 Raise)
      have bt: "block (c # cs) t = (Raise e, t1)" using rr by (simp add: t1 Raise)
      show ?thesis unfolding bs bt using ww by simp
    qed
  qed
  show ?thesis
  proof (rule followsI)
    fix s t assume "v s = v t"
    note m = main[OF this]
    show "fst (block (c # cs) s) = fst (block (c # cs) t)" using m by (rule conjunct1)
  next
    fix s t assume "v s = v t"
    note m = main[OF this]
    show "w (snd (block (c # cs) s)) = w (snd (block (c # cs) t))" using m by (elim conjE)
  next
    fix s t assume "v s = v t" and k: "fst (block (c # cs) s) = Continue"
    note m = main[OF this(1)]
    show "v' (snd (block (c # cs) s)) = v' (snd (block (c # cs) t))" using m k by (elim conjE impE)
  qed
qed

lemma follows_same:
  assumes "\<And>s t. v s = v t \<Longrightarrow> w s = w t" and "list_all (follows v v w) cs"
  shows "follows v v w (block cs)"
  using assms(2)
proof (induction cs)
  case Nil
  show ?case using assms(1) by (rule follows_nil)
next
  case (Cons c cs)
  have 1: "follows v v w c" using Cons.prems by (simp only: list.pred_inject)
  have "list_all (follows v v w) cs" using Cons.prems by (simp only: list.pred_inject)
  then have 2: "follows v v w (block cs)" by (rule Cons.IH)
  show ?case using 1 2 by (rule follows_cons)
qed

lemma call_set_title:
  "call (set_title v) s =
     (if v = [] then (Continue, s)
      else case cfg_slice (cfg s) ''MAX_TITLE'' v of
             Inl e \<Rightarrow> (Raise e, s)
           | Inr t \<Rightarrow> (Continue, s\<lparr>self := (self s)\<lparr>title := Some t\<rparr>\<rparr>))"
  by (simp add: set_title_def stmt_defs split: sum.splits)

lemma call_set_authors:
  "call (set_authors (Inr v)) s =
     (if v = [] then (Continue, s)
      else case cfg_slice (cfg s) ''MAX_AUTHORS'' v of
             Inl e \<Rightarrow> (Raise e, s)
           | Inr t \<Rightarrow> (Continue, s\<lparr>self := (self s)\<lparr>authors := t\<rparr>\<rparr>))"
  by (simp add: set_authors_def stmt_defs split: sum.splits)

lemma call_set_meta_language:
  "call (set_meta_language C v) s =
     (case v of
        None \<Rightarrow> (Continue, s)
      | Some l \<Rightarrow>
          if l \<noteq> [] \<and> 2 \<le> length l
          then (case get_available_languages C of
                  Inl e \<Rightarrow> (Raise e, s)
                | Inr ls \<Rightarrow> if l \<in> set ls
                    then (Continue, s\<lparr>self := (self s)\<lparr>meta_lang := take 2 l\<rparr>\<rparr>)
                    else (Continue, s))
          else (Continue, s))"
  by (simp add: set_meta_language_def stmt_defs split: sum.splits option.splits)

lemma call_plain_setters:
  "call (set_meta_site_name a) s = (Continue, s\<lparr>self := (self s)\<lparr>meta_site_name := a\<rparr>\<rparr>)"
  "call (set_meta_description a) s = (Continue, s\<lparr>self := (self s)\<lparr>meta_description := a\<rparr>\<rparr>)"
  "call (set_tags b) s = (Continue, s\<lparr>self := (self s)\<lparr>tags := b\<rparr>\<rparr>)"
  "call (set_meta_keywords a) s =
     (Continue, s\<lparr>self := (self s)\<lparr>meta_keywords := map py_strip (py_split a CHR '','')\<rparr>\<rparr>)"
  "call (set_meta_data c) s = (Continue, s\<lparr>self := (self s)\<lparr>meta_data := c\<rparr>\<rparr>)"
  by (simp_all add: set_meta_site_name_def set_meta_description_def set_tags_def
      set_meta_keywords_def set_meta_data_def stmt_defs)

lemmas obs_defs = obs_meta_def obs_tree_def obs_input_def obs_result_def cfg_def deref_def

lemma obs_meta_updates:
  "obs_meta (s\<lparr>self := (self s)\<lparr>title := a1\<rparr>\<rparr>) = obs_meta s"
  "obs_meta (s\<lparr>self := (self s)\<lparr>authors := a2\<rparr>\<rparr>) = obs_meta s"
  "obs_meta (s\<lparr>self := (self s)\<lparr>meta_site_name := a3\<rparr>\<rparr>) = obs_meta s"
  "obs_meta (s\<lparr>self := (self s)\<lparr>meta_description := a4\<rparr>\<rparr>) = obs_meta s"
  "obs_meta (s\<lparr>self := (self s)\<lparr>tags := a5\<rparr>\<rparr>) = obs_meta s"
  "obs_meta (s\<lparr>self := (self s)\<lparr>meta_keywords := a6\<rparr>\<rparr>) = obs_meta s"
  "obs_meta (s\<lparr>self := (self s)\<lparr>meta_data := a7\<rparr>\<rparr>) = obs_meta s"
  by (simp_all add: obs_defs)

lemma obs_metaD:
  assumes "obs_meta s = obs_meta t"
  shows "cfg s = cfg t" and "extractor (self s) = extractor (self t)"
    and "meta_lang (self s) = meta_lang (self t)"
    and "deref s (clean_doc (self s)) = deref t (clean_doc (self t))"
    and "deref s (doc (self s)) = deref t (doc (self t))"
    and "output_formatter s = output_formatter t"
    and "(link_hash (self s) = None) = (link_hash (self t) = None)"
    and "obs_result s = obs_result t"
    and "html (self s) = html (self t)"
  using assms by (simp_all add: obs_meta_def obs_tree_def obs_input_def)

lemma obs_meta_cong:
  assumes "obs_meta s = obs_meta t"
  shows "obs_meta (s\<lparr>self := (self s)\<lparr>meta_lang := l\<rparr>\<rparr>) =
         obs_meta (t\<lparr>self := (self t)\<lparr>meta_lang := l\<rparr>\<rparr>)"
    and "obs_meta (s\<lparr>self := (self s)\<lparr>extractor := x\<rparr>\<rparr>) =
         obs_meta (t\<lparr>self := (self t)\<lparr>extractor := x\<rparr>\<rparr>)"
    and "obs_meta (s\<lparr>output_formatter := f\<rparr>) = obs_meta (t\<lparr>output_formatter := f\<rparr>)"
  using assms by (simp_all add: obs_defs)

lemma obs_meta_result: "obs_meta s = obs_meta t \<Longrightarrow> obs_result s = obs_result t"
  by (simp add: obs_meta_def obs_tree_def obs_input_def)

lemma obs_meta_cong2:
  assumes "obs_meta s = obs_meta t"
  shows "obs_meta (s\<lparr>self := (self s)\<lparr>extractor := x\<rparr>, output_formatter := f\<rparr>) =
         obs_meta (t\<lparr>self := (self t)\<lparr>extractor := x\<rparr>, output_formatter := f\<rparr>)"
  using assms by (simp add: obs_defs)

lemma followsI_same:
  assumes "\<And>s t. v s = v t \<Longrightarrow> fst (c s) = fst (c t) \<and> v (snd (c s)) = v (snd (c t))"
    and "\<And>s t. v s = v t \<Longrightarrow> w s = w t"
  shows "follows v v w c"
proof (rule followsI)
  fix s t assume v: "v s = v t"
  note a = assms(1)[OF v]
  show "fst (c s) = fst (c t)" using a by (rule conjunct1)
  have b: "v (snd (c s)) = v (snd (c t))" using a by (rule conjunct2)
  show "w (snd (c s)) = w (snd (c t))" using b by (rule assms(2))
  show "v (snd (c s)) = v (snd (c t))" by (rule b)
qed

lemma meta_language_stmt_eq:
  "if_then (\<lambda>s. case getattr (cfg s) ''use_meta_language'' of
                    Inl e \<Rightarrow> Inl e | Inr v \<Rightarrow> Inr (truthy v))
       (block [
          assign (\<lambda>s. s\<lparr>self := (self s)\<lparr>extractor :=
            update_language C (cfg s) (extractor (self s)) (meta_lang (self s))\<rparr>\<rparr>),
          (\<lambda>s. case output_formatter s of
             None \<Rightarrow> (Raise UnboundLocalError, s)
           | Some f \<Rightarrow> (Continue, s\<lparr>output_formatter :=
               Some (formatter_update_language C (cfg s) f (meta_lang (self s)))\<rparr>))]) s =
   (case getattr (cfg s) ''use_meta_language'' of
      Inl e \<Rightarrow> (Raise e, s)
    | Inr v \<Rightarrow>
        if truthy v
        then (case output_formatter s of
                None \<Rightarrow> (Raise UnboundLocalError,
                  s\<lparr>self := (self s)\<lparr>extractor :=
                    update_language C (cfg s) (extractor (self s)) (meta_lang (self s))\<rparr>\<rparr>)
              | Some f \<Rightarrow> (Continue,
                  s\<lparr>self := (self s)\<lparr>extractor :=
                      update_language C (cfg s) (extractor (self s)) (meta_lang (self s))\<rparr>,
                    output_formatter :=
                      Some (formatter_update_language C (cfg s) f (meta_lang (self s)))\<rparr>))
        else (Continue, s))"
  by (simp add: if_then_def assign_def cfg_def split: sum.splits option.splits)

lemma follows_parse_meta:
  fixes C :: "('e, 'x, 'f, 'w) collab"
  shows "follows obs_meta obs_meta obs_result (parse_meta C)"
  unfolding parse_meta_def
proof (rule follows_same, goal_cases)
  case (1 s t)
  then show ?case by (rule obs_meta_result)
next
  case 2
  have r: "\<And>s t. obs_meta s = obs_meta t \<Longrightarrow> obs_result s = obs_result t"
    by (rule obs_meta_result)
  show ?case
    unfolding list.pred_inject
  proof (intro conjI TrueI)
    show "follows obs_meta obs_meta obs_result (\<lambda>s. call (set_title
        (get_title C (cfg s) (extractor (self s)) (deref s (clean_doc (self s))))) s)"
    proof (rule followsI_same[OF _ r], goal_cases)
      case (1 s t)
      note d = obs_metaD[OF 1]
      show ?case
        unfolding d(1,2,4) call_set_title
        by (simp add: obs_meta_updates 1 split: sum.splits)
    qed
  next
    show "follows obs_meta obs_meta obs_result (\<lambda>s. call (set_authors
        (Inr (get_authors C (cfg s) (extractor (self s)) (deref s (clean_doc (self s)))))) s)"
    proof (rule followsI_same[OF _ r], goal_cases)
      case (1 s t)
      note d = obs_metaD[OF 1]
      show ?case
        unfolding d(1,2,4) call_set_authors
        by (simp add: obs_meta_updates 1 split: sum.splits)
    qed
  next
    show "follows obs_meta obs_meta obs_result (\<lambda>s. call (set_meta_language C
        (get_meta_lang C (cfg s) (extractor (self s)) (deref s (clean_doc (self s))))) s)"
    proof (rule followsI_same[OF _ r], goal_cases)
      case (1 s t)
      note d = obs_metaD[OF 1]
      show ?case
        unfolding d(1,2,4) call_set_meta_language
        by (simp add: obs_meta_cong(1)[OF 1] 1 split: sum.splits option.splits)
    qed
  next
    show "follows obs_meta obs_meta obs_result
      (if_then (\<lambda>s. case getattr (cfg s) ''use_meta_language'' of
                    Inl e \<Rightarrow> Inl e | Inr v \<Rightarrow> Inr (truthy v))
       (block [
          assign (\<lambda>s. s\<lparr>self := (self s)\<lparr>extractor :=
            update_language C (cfg s) (extractor (self s)) (meta_lang (self s))\<rparr>\<rparr>),
          (\<lambda>s. case output_formatter s of
             None \<Rightarrow> (Raise UnboundLocalError, s)
           | Some f \<Rightarrow> (Continue, s\<lparr>output_formatter :=
               Some (formatter_update_language C (cfg s) f (meta_lang (self s)))\<rparr>))]))"
    proof (rule followsI_same[OF _ r], goal_cases)
      case (1 s t)
      note d = obs_metaD[OF 1]
      show ?case
        unfolding meta_language_stmt_eq d(1,2,3,6)
        by (simp add: obs_meta_cong(2)[OF 1] obs_meta_cong2[OF 1] 1 split: sum.splits option.splits)
    qed
  next
    show "follows obs_meta obs_meta obs_result (\<lambda>s. call (set_meta_site_name
        (get_meta_site_name C (cfg s) (extractor (self s)) (deref s (clean_doc (self s))))) s)"
      by (rule followsI_same[OF _ r]) (simp add: call_plain_setters obs_meta_updates)
  next
    show "follows obs_meta obs_meta obs_result (\<lambda>s. call (set_meta_description
        (get_meta_description C (cfg s) (extractor (self s)) (deref s (clean_doc (self s))))) s)"
      by (rule followsI_same[OF _ r]) (simp add: call_plain_setters obs_meta_updates)
  next
    show "follows obs_meta obs_meta obs_result (\<lambda>s. call (set_tags
        (extract_tags C (cfg s) (extractor (self s)) (deref s (clean_doc (self s))))) s)"
      by (rule followsI_same[OF _ r]) (simp add: call_plain_setters obs_meta_updates)
  next
    show "follows obs_meta obs_meta obs_result (\<lambda>s. call (set_meta_keywords
        (get_meta_keywords C (cfg s) (extractor (self s)) (deref s (clean_doc (self s))))) s)"
      by (rule followsI_same[OF _ r]) (simp add: call_plain_setters obs_meta_updates)
  next
    show "follows obs_meta obs_meta obs_result (\<lambda>s. call (set_meta_data
        (get_meta_data C (cfg s) (extractor (self s)) (deref s (clean_doc (self s))))) s)"
      by (rule followsI_same[OF _ r]) (simp add: call_plain_setters obs_meta_updates)
  next
    show "list_all (follows obs_meta obs_meta obs_result) []" by simp
  qed
qed

lemma follows_parse_tree:
  fixes C :: "('e, 'x, 'f, 'w) collab"
  shows "follows obs_input obs_tree obs_result (parse_tree C)"
proof (rule followsI, goal_cases)
  case (1 s t)
  then show ?case
    by (simp add: parse_tree_eq obs_input_def split: option.splits)
next
  case (2 s t)
  then show ?case
    by (simp add: parse_tree_eq obs_input_def obs_result_def split: option.splits)
next
  case (3 s t)
  then show ?case
    by (simp add: parse_tree_eq obs_tree_def obs_input_def obs_result_def cfg_def deref_def
        split: option.splits)
qed

lemma get_parse_candidate_cases:
  assumes "html (self s) = html (self t)"
  shows "(\<exists>e. get_parse_candidate C s = Inl e \<and> get_parse_candidate C t = Inl e) \<or>
         (\<exists>h h'. get_parse_candidate C s = Inr h \<and> get_parse_candidate C t = Inr h')"
  using assms
  by (cases "html (self t)")
    (simp_all add: get_parse_candidate_def RawHelper_get_parsing_candidate_def
      URLHelper_get_parsing_candidate_def)

lemma follows_parse_setup:
  fixes C :: "('e, 'x, 'f, 'w) collab"
  shows "follows obs_tree obs_meta obs_result (parse_setup C)"
proof (rule followsI, goal_cases)
  case (1 s t)
  then have "html (self s) = html (self t)" by (simp add: obs_tree_def obs_input_def)
  from get_parse_candidate_cases[OF this, of C] show ?case
    by (auto simp: parse_setup_eq)
next
  case (2 s t)
  then have h: "html (self s) = html (self t)" and r: "obs_result s = obs_result t"
    by (simp_all add: obs_tree_def obs_input_def)
  from get_parse_candidate_cases[OF h, of C] r show ?case
    by (auto simp: parse_setup_eq obs_result_def)
next
  case (3 s t)
  then have h: "html (self s) = html (self t)"
    by (simp add: obs_tree_def obs_input_def)
  from get_parse_candidate_cases[OF h, of C] 3 show ?case
    by (auto simp: parse_setup_eq obs_defs)
qed

lemma deref_eq_cases:
  assumes "deref s a = deref t b"
  shows "(a = None \<and> b = None) \<or> (\<exists>d d'. a = Some d \<and> b = Some d' \<and> elem_heap s d = elem_heap t d')"
  using assms by (cases a; cases b) (simp_all add: deref_def)

lemma obs_scoringD:
  assumes "obs_scoring s = obs_scoring t"
  shows "cfg s = cfg t" and "extractor (self s) = extractor (self t)"
    and "deref s (doc (self s)) = deref t (doc (self t))"
    and "output_formatter s = output_formatter t"
    and "(link_hash (self s) = None) = (link_hash (self t) = None)"
    and "obs_result s = obs_result t"
  using assms by (simp_all add: obs_scoring_def)

lemma follows_parse_clean:
  fixes C :: "('e, 'x, 'f, 'w) collab"
  shows "follows obs_meta obs_scoring obs_result (parse_clean C)"
proof (rule followsI, goal_cases)
  case (1 s t)
  from deref_eq_cases[OF obs_metaD(5)[OF 1]] show ?case
    by (auto simp: parse_clean_eq)
next
  case (2 s t)
  from deref_eq_cases[OF obs_metaD(5)[OF 2]] obs_metaD(8)[OF 2] show ?case
    by (auto simp: parse_clean_eq obs_result_def)
next
  case (3 s t)
  note d = obs_metaD[OF 3(1)]
  from deref_eq_cases[OF d(5)] 3(2) d(1,2,6,7,8) show ?case
    by (auto simp: parse_clean_eq obs_scoring_def obs_result_def cfg_def deref_def)
qed

lemma parse_finish_obs:
  "fst (parse_finish C s) = (if link_hash (self s) = None then Raise AttributeError else Continue)"
  "obs_result (snd (parse_finish C s)) = obs_result s"
  by (auto simp: parse_finish_def assign_def call_def release_resources_def
      get_resource_path_def body_def Let_def obs_result_def split: option.splits)

lemma follows_parse_finish:
  fixes C :: "('e, 'x, 'f, 'w) collab"
  shows "follows obs_finish obs_result obs_result (parse_finish C)"
proof (rule followsI, goal_cases)
  case (1 s t)
  then show ?case by (simp add: parse_finish_obs obs_finish_def)
next
  case (2 s t)
  then show ?case by (simp add: parse_finish_obs obs_finish_def)
next
  case (3 s t)
  then show ?case by (simp add: parse_finish_obs obs_finish_def)
qed

lemma parse_top_node_unbound:
  assumes "top_node (self s) = Some r" and "output_formatter s = None"
  shows "fst (parse_top_node C s) = Raise UnboundLocalError"
    and "obs_finish (snd (parse_top_node C s)) = obs_finish s"
  using assms
  by (simp_all add: parse_top_node_def set_movies_eq call_def alloc_elem_def deepcopy_def
      obs_finish_def obs_result_def)

lemma parse_best_node_None:
  assumes "doc (self s) = None"
  shows "parse_best_node C s = (Raise AttributeError, s)"
  using assms by (simp add: parse_best_node_def)

lemma parse_best_node_summary:
  assumes "doc (self s) = Some d"
  shows "fst (parse_best_node C s) =
     (case calculate_best_node C (cfg s) (extractor (self s)) (elem_heap s d) of
        None \<Rightarrow> Continue
      | Some n \<Rightarrow>
         (case output_formatter s of
            None \<Rightarrow> Raise UnboundLocalError
          | Some f \<Rightarrow>
             (case cfg_slice (cfg s) ''MAX_TEXT''
                (fst (fst (get_formatted C (cfg s) f
                   (post_cleanup C (cfg s) (extractor (self s)) n)))) of
                Inl e \<Rightarrow> Raise e | Inr t1 \<Rightarrow> Continue)))"
   and "obs_finish (snd (parse_best_node C s)) =
     (case calculate_best_node C (cfg s) (extractor (self s)) (elem_heap s d) of
        None \<Rightarrow> obs_finish s
      | Some n \<Rightarrow>
         (case output_formatter s of
            None \<Rightarrow> obs_finish s
          | Some f \<Rightarrow>
             (link_hash (self s) = None,
              (case cfg_slice (cfg s) ''MAX_TEXT''
                (fst (fst (get_formatted C (cfg s) f
                   (post_cleanup C (cfg s) (extractor (self s)) n)))) of
                 Inl e \<Rightarrow> article_text (self s)
               | Inr t1 \<Rightarrow> if t1 \<noteq> [] then t1 else article_text (self s)),
              (if snd (fst (get_formatted C (cfg s) f
                   (post_cleanup C (cfg s) (extractor (self s)) n))) \<noteq> []
               then snd (fst (get_formatted C (cfg s) f
                   (post_cleanup C (cfg s) (extractor (self s)) n)))
               else article_html (self s)))))"
proof -
  let ?P = "parse_best_node C s"
  show "fst ?P =
     (case calculate_best_node C (cfg s) (extractor (self s)) (elem_heap s d) of
        None \<Rightarrow> Continue
      | Some n \<Rightarrow>
         (case output_formatter s of
            None \<Rightarrow> Raise UnboundLocalError
          | Some f \<Rightarrow>
             (case cfg_slice (cfg s) ''MAX_TEXT''
                (fst (fst (get_formatted C (cfg s) f
                   (post_cleanup C (cfg s) (extractor (self s)) n)))) of
                Inl e \<Rightarrow> Raise e | Inr t1 \<Rightarrow> Continue)))"
  proof (cases "calculate_best_node C (cfg s) (extractor (self s)) (elem_heap s d)")
    case None
    then show ?thesis using assms by (simp add: parse_best_node_eq)
  next
    case (Some n)
    let ?s = "s\<lparr>elem_heap := (elem_heap s)(next_ref s := n), next_ref := Suc (next_ref s),
             self := (self s)\<lparr>top_node := Some (next_ref s)\<rparr>\<rparr>"
    have b: "parse_best_node C s = parse_top_node C ?s"
      using assms Some by (simp add: parse_best_node_eq)
    have c: "cfg ?s = cfg s" by (simp add: cfg_def)
    show ?thesis
    proof (cases "output_formatter s")
      case None
      then show ?thesis
        using parse_top_node_unbound(1)[of ?s "next_ref s" C] Some b by simp
    next
      case (Some f)
      obtain t a n1 where g: "get_formatted C (cfg s) f
          (post_cleanup C (cfg s) (extractor (self s)) n) = ((t, a), n1)"
        by (metis prod.collapse)
      have "fst (parse_top_node C ?s) =
           (case cfg_slice (cfg s) ''MAX_TEXT'' t of Inl e \<Rightarrow> Raise e | Inr t1 \<Rightarrow> Continue)"
        using parse_top_node_effect(1)[of ?s "next_ref s" f
            "post_cleanup C (cfg s) (extractor (self s)) n" C t a n1, unfolded c] Some g
        by simp
      then show ?thesis
        using \<open>calculate_best_node C (cfg s) (extractor (self s)) (elem_heap s d) = Some n\<close>
          Some b g by simp
    qed
  qed
  show "obs_finish (snd ?P) =
     (case calculate_best_node C (cfg s) (extractor (self s)) (elem_heap s d) of
        None \<Rightarrow> obs_finish s
      | Some n \<Rightarrow>
         (case output_formatter s of
            None \<Rightarrow> obs_finish s
          | Some f \<Rightarrow>
             (link_hash (self s) = None,
              (case cfg_slice (cfg s) ''MAX_TEXT''
                (fst (fst (get_formatted C (cfg s) f
                   (post_cleanup C (cfg s) (extractor (self s)) n)))) of
                 Inl e \<Rightarrow> article_text (self s)
               | Inr t1 \<Rightarrow> if t1 \<noteq> [] then t1 else article_text (self s)),
              (if snd (fst (get_formatted C (cfg s) f
                   (post_cleanup C (cfg s) (extractor (self s)) n))) \<noteq> []
               then snd (fst (get_formatted C (cfg s) f
                   (post_cleanup C (cfg s) (extractor (self s)) n)))
               else article_html (self s)))))"
  proof (cases "calculate_best_node C (cfg s) (extractor (self s)) (elem_heap s d)")
    case None
    then show ?thesis using assms by (simp add: parse_best_node_eq obs_finish_def obs_result_def)
  next
    case (Some n)
    let ?s = "s\<lparr>elem_heap := (elem_heap s)(next_ref s := n), next_ref := Suc (next_ref s),
             self := (self s)\<lparr>top_node := Some (next_ref s)\<rparr>\<rparr>"
    have b: "parse_best_node C s = parse_top_node C ?s"
      using assms Some by (simp add: parse_best_node_eq)
    have c: "cfg ?s = cfg s" by (simp add: cfg_def)
    have o: "obs_finish ?s = obs_finish s" by (simp add: obs_finish_def obs_result_def)
    show ?thesis
    proof (cases "output_formatter s")
      case None
      then show ?thesis
        using parse_top_node_unbound(2)[of ?s "next_ref s" C] Some b o by simp
    next
      case (Some f)
      obtain t a n1 where g: "get_formatted C (cfg s) f
          (post_cleanup C (cfg s) (extractor (self s)) n) = ((t, a), n1)"
        by (metis prod.collapse)
      note e = parse_top_node_effect[of ?s "next_ref s" f
            "post_cleanup C (cfg s) (extractor (self s)) n" C t a n1 "snd (parse_top_node C ?s)",
            unfolded c]
      have pre: "top_node (self ?s) = Some (next_ref s)" "output_formatter ?s = Some f"
        "next_ref s \<noteq> next_ref ?s"
        "post_cleanup C (cfg s) (extractor (self s)) n =
           post_cleanup C (cfg s) (extractor (self ?s)) (elem_heap ?s (next_ref s))"
        "get_formatted C (cfg s) f (post_cleanup C (cfg s) (extractor (self s)) n) = ((t, a), n1)"
        "snd (parse_top_node C ?s) = snd (parse_top_node C ?s)"
        using Some g by simp_all
      note e' = e[OF pre]
      have t: "article_text (self (snd (parse_top_node C ?s))) =
           (case cfg_slice (cfg s) ''MAX_TEXT'' t of
              Inl e \<Rightarrow> article_text (self s)
            | Inr t1 \<Rightarrow> if t1 \<noteq> [] then t1 else article_text (self s))"
        using e'(6) by (simp split: sum.splits)
      have h: "article_html (self (snd (parse_top_node C ?s))) =
           (if a \<noteq> [] then a else article_html (self s))"
        using e'(5) by simp
      have l: "link_hash (self (snd (parse_top_node C ?s))) = link_hash (self s)"
        using e'(8) by simp
      show ?thesis
        unfolding \<open>calculate_best_node C (cfg s) (extractor (self s)) (elem_heap s d) = Some n\<close>
          Some b obs_finish_def obs_result_def t h l
        by (simp add: g)
    qed
  qed
qed

lemma follows_parse_best_node:
  fixes C :: "('e, 'x, 'f, 'w) collab"
  shows "follows obs_scoring obs_finish obs_result (parse_best_node C)"
proof -
  have main: "fst (parse_best_node C s) = fst (parse_best_node C t) \<and>
      obs_finish (snd (parse_best_node C s)) = obs_finish (snd (parse_best_node C t))"
    if v: "obs_scoring s = obs_scoring t" for s t :: "('e, 'x, 'f, 'w) state"
  proof -
    note d = obs_scoringD[OF v]
    have of: "obs_finish s = obs_finish t"
      using d(5,6) by (simp add: obs_finish_def)
    have lt: "article_text (self s) = article_text (self t)"
      "article_html (self s) = article_html (self t)"
      using d(6) by (simp_all add: obs_result_def)
    from deref_eq_cases[OF d(3)] show ?thesis
    proof (elim disjE conjE exE)
      assume "doc (self s) = None" "doc (self t) = None"
      then show ?thesis using of by (simp add: parse_best_node_None)
    next
      fix ds dt assume a: "doc (self s) = Some ds" "doc (self t) = Some dt"
        "elem_heap s ds = elem_heap t dt"
      show ?thesis
        unfolding parse_best_node_summary[OF a(1)] parse_best_node_summary[OF a(2)]
          d(1,2,4,5) a(3) of lt
        by simp
    qed
  qed
  show ?thesis
  proof (rule followsI, goal_cases)
    case (1 s t)
    from main[OF 1] show ?case by (rule conjunct1)
  next
    case (2 s t)
    from main[OF 2] have "obs_finish (snd (parse_best_node C s)) =
        obs_finish (snd (parse_best_node C t))" by (rule conjunct2)
    then show ?case by (simp add: obs_finish_def)
  next
    case (3 s t)
    from main[OF 3(1)] show ?case by (rule conjunct2)
  qed
qed

lemma follows_parse_block:
  fixes C :: "('e, 'x, 'f, 'w) collab"
  shows "follows obs_input obs_result obs_result
     (block [parse_tree C, parse_setup C, parse_meta C, parse_clean C, parse_best_node C,
        parse_finish C])"
  by (intro follows_cons[OF follows_parse_tree] follows_cons[OF follows_parse_setup]
      follows_cons[OF follows_parse_meta] follows_cons[OF follows_parse_clean]
      follows_cons[OF follows_parse_best_node] follows_cons[OF follows_parse_finish]
      follows_nil)

lemma fst_body_eq:
  "fst (body cs s) = (case fst (block cs s) of Continue \<Rightarrow> Return () | r \<Rightarrow> r)"
proof -
  obtain r s1 where b: "block cs s = (r, s1)" by (cases "block cs s")
  show ?thesis unfolding body_def b by (cases r) simp_all
qed

lemma parse_same:
  fixes C :: "('e, 'x, 'f, 'w) collab"
  assumes "obs_input s = obs_input t"
  shows "fst (parse C s) = fst (parse C t)"
    and "obs_result (snd (parse C s)) = obs_result (snd (parse C t))"
  using followsD(1)[OF follows_parse_block assms, of C] followsD(2)[OF follows_parse_block assms, of C]
  by (simp_all add: parse_def fst_body_eq snd_body del: block.simps)

section \<open>The text that \<^verbatim>\<open>parse\<close> assigns, and evaluation in the small instance\<close>

lemma prefix_cfg:
  assumes "block [parse_tree C, parse_setup C, parse_meta C, parse_clean C] s = (Continue, s1)"
  shows "cfg s1 = cfg s"
proof -
  obtain sA sB sC where A: "parse_tree C s = (Continue, sA)" and B: "parse_setup C sA = (Continue, sB)"
    and M: "parse_meta C sB = (Continue, sC)" and K: "parse_clean C sC = (Continue, s1)"
    using assms by (rule prefix_phases)
  have a: "cfg sA = cfg s" using A by (auto simp: parse_tree_eq cfg_def split: option.splits)
  have b: "cfg sB = cfg sA" using B by (auto simp: parse_setup_eq cfg_def split: sum.splits)
  have "body_view sC = body_view sB"
    using keepsD[OF keeps_parse_meta, of C sB] M by simp
  then have c: "cfg sC = cfg sB" by (simp add: body_view_def cfg_def)
  have d: "cfg s1 = cfg sC" using K by (auto simp: parse_clean_eq cfg_def split: option.splits)
  show ?thesis by (simp add: a b c d)
qed

lemma parse_article_text:
  assumes "block [parse_tree C, parse_setup C, parse_meta C, parse_clean C] s = (Continue, s1)"
    and "deref s1 (doc (self s1)) = Some e"
    and "calculate_best_node C (cfg s1) (extractor (self s1)) e = Some n"
    and "output_formatter s1 = Some f"
    and "get_formatted C (cfg s1) f (post_cleanup C (cfg s1) (extractor (self s1)) n) = ((t, a), n1)"
  shows "article_text (self (snd (parse C s))) =
           (case cfg_slice (cfg s) ''MAX_TEXT'' t of
              Inl e \<Rightarrow> article_text (self s)
            | Inr t1 \<Rightarrow> if t1 \<noteq> [] then t1 else article_text (self s))"
proof -
  obtain d h f' where f: "doc (self s1) = Some d" "link_hash (self s1) = Some h"
      "output_formatter s1 = Some f'"
    using prefix_Continue(1)[OF assms(1)] by auto
  have ff: "f' = f" using f(3) assms(4) by simp
  have some: "calculate_best_node C (cfg s1) (extractor (self s1)) (elem_heap s1 d) = Some n"
    using assms(2,3) f(1) by (simp add: deref_def)
  obtain r2 s2 where q: "block [parse_best_node C, parse_finish C] s1 = (r2, s2)"
    by (cases "block [parse_best_node C, parse_finish C] s1")
  have res: "snd (parse C s) = s2"
    by (cases r2) (simp_all add: parse_split assms(1) q del: block.simps)
  note e = suffix_some[OF f(1,2) assms(4) some refl assms(5) q]
  show ?thesis
    unfolding res e(6) prefix_cfg[OF assms(1)] prefix_Continue(2)[OF assms(1)] by (rule refl)
qed


section \<open>Properties of \<^verbatim>\<open>extend_config\<close>\<close>








section \<open>Construction\<close>

text \<open>
  C9. The constructor raises \<^verbatim>\<open>ArticleException\<close> when \<^verbatim>\<open>title\<close> or \<^verbatim>\<open>source_url\<close>
  is a \<^verbatim>\<open>Configuration\<close> object, and in every other case it does not raise: it returns.
\<close>

theorem Article_init_guard:
  "fst (Article_init C html0 title0 source_url0 config0 kwargs s) =
     (if is_Configuration title0 \<or> is_Configuration source_url0
      then Raise ArticleException else Return ())"
  by (simp add: Article_init_def body_def assign_def if_then_def raise_def)

theorem Article_init_guard_witness:
  "fst (Article_init toy_collab (HtmlStr ''<p>x</p>'') (ArgConfiguration 0) ArgNone None []
          toy_state) = Raise ArticleException \<and>
   fst (Article_init toy_collab (HtmlStr ''<p>x</p>'') ArgNone (ArgConfiguration 0) None []
          toy_state) = Raise ArticleException \<and>
   fst (Article_init toy_collab (HtmlStr ''<p>x</p>'') (ArgStr ''A title'') (ArgStr ''http://x'')
          (Some 0) [] toy_state) = Return ()"
  using Article_init_guard[of toy_collab "HtmlStr ''<p>x</p>''" "ArgConfiguration 0" ArgNone None "[]" toy_state]
    Article_init_guard[of toy_collab "HtmlStr ''<p>x</p>''" ArgNone "ArgConfiguration 0" None "[]" toy_state]
    Article_init_guard[of toy_collab "HtmlStr ''<p>x</p>''" "ArgStr ''A title''" "ArgStr ''http://x''" "Some 0" "[]" toy_state]
  by simp

text \<open>
  C8. The claim is that the title is never longer than \<^verbatim>\<open>MAX_TITLE\<close>. \<^verbatim>\<open>set_title\<close>
  cuts its argument to \<^verbatim>\<open>MAX_TITLE\<close> characters; the constructor stores the title it is
  given as it is (line 46). With \<^verbatim>\<open>MAX_TITLE = 2\<close> the title \<^verbatim>\<open>'abc'\<close> is kept by the
  constructor and is still there after \<^verbatim>\<open>parse\<close>, when the extractor finds no title;
  \<^verbatim>\<open>set_title('abc')\<close> on the same Article gives \<^verbatim>\<open>'ab'\<close>.
\<close>

theorem Article_init_title_not_capped:
  "fst (Article_init toy_collab (HtmlStr ''<p>x</p>'') (ArgStr ''abc'') ArgNone None
          [(''MAX_TITLE'', PInt 2)] toy_state) = Return () \<and>
   title (self (toy_init (HtmlStr ''<p>x</p>'') (ArgStr ''abc'') [(''MAX_TITLE'', PInt 2)])) =
     Some ''abc'' \<and>
   cfg (toy_init (HtmlStr ''<p>x</p>'') (ArgStr ''abc'') [(''MAX_TITLE'', PInt 2)]) ''MAX_TITLE'' =
     Some (PInt 2) \<and>
   title (self (snd (parse toy_collab
     (toy_init (HtmlStr ''<p>x</p>'') (ArgStr ''abc'') [(''MAX_TITLE'', PInt 2)])))) = Some ''abc'' \<and>
   title (self (snd (set_title ''abc''
     (toy_init (HtmlStr ''<p>x</p>'') (ArgStr ''abc'') [(''MAX_TITLE'', PInt 2)])))) = Some ''ab''"
proof -
  let ?s = "toy_init (HtmlStr ''<p>x</p>'') (ArgStr ''abc'') [(''MAX_TITLE'', PInt 2)]"
  have 1: "fst (Article_init toy_collab (HtmlStr ''<p>x</p>'') (ArgStr ''abc'') ArgNone None
          [(''MAX_TITLE'', PInt 2)] toy_state) = Return ()"
    by (simp add: Article_init_guard_aux)
  have 2: "title (self ?s) = Some ''abc''"
    by (simp add: init_eval)
  have 3: "cfg ?s ''MAX_TITLE'' = Some (PInt 2)"
    by (simp add: init_eval hasattr_def setattr_def toy_collab_def toy_config_def)
  have 4: "title (self (snd (parse toy_collab ?s))) = Some ''abc''"
    apply (simp add: init_eval hasattr_def setattr_def)
    apply (simp add: parse_def phase_eval parse_best_node_def parse_top_node_def parse_finish_def
        alloc_elem_def deepcopy_def set_movies_def set_article_html_def set_text_def
        cfg_slice_def release_resources_def get_resource_path_def os_path_join_def Let_def)
    done
  have 5: "title (self (snd (set_title ''abc'' ?s))) = Some ''ab''"
    apply (simp add: init_eval hasattr_def setattr_def)
    apply (simp add: set_title_def stmt_defs cfg_slice_def getattr_def cfg_def toy_collab_def
        toy_config_def)
    done
  show ?thesis using 1 2 3 4 5 by simp
qed

section \<open>The length of the text\<close>

lemma set_text_prefix:
  assumes "cfg s ''MAX_TEXT'' = Some (PInt m)" and "0 \<le> m"
  shows "fst (set_text t s) = Return () \<and>
         article_text (self (snd (set_text t s))) =
           (if take (nat m) t = [] then article_text (self s) else take (nat m) t) \<and>
         (take (nat m) t \<noteq> [] \<longrightarrow> int (length (article_text (self (snd (set_text t s))))) \<le> m)"
  using assms
  by (auto simp: set_text_def body_def cfg_slice_PInt if_then_def assign_def)

text \<open>
  C2, as amended. Let \<^verbatim>\<open>MAX_TEXT\<close> be a non-negative integer \<open>m\<close>, and let \<^verbatim>\<open>parse\<close> reach
  the scorer, which selects a node whose formatted text is \<open>t\<close>. Then the text of the
  Article after \<^verbatim>\<open>parse\<close> is the first \<open>m\<close> characters of \<open>t\<close> (all of \<open>t\<close> when it is
  shorter), so the text assigned is never longer than \<^verbatim>\<open>MAX_TEXT\<close>; when nothing is left
  after the cut, the text stays what it was. The cut is at character \<open>m\<close>, wherever that
  falls.
\<close>

theorem parse_text_prefix:
  assumes "block [parse_tree C, parse_setup C, parse_meta C, parse_clean C] s = (Continue, s1)"
    and "deref s1 (doc (self s1)) = Some e"
    and "calculate_best_node C (cfg s1) (extractor (self s1)) e = Some n"
    and "output_formatter s1 = Some f"
    and "fst (fst (get_formatted C (cfg s1) f
           (post_cleanup C (cfg s1) (extractor (self s1)) n))) = t"
    and "cfg s ''MAX_TEXT'' = Some (PInt m)"
    and "0 \<le> m"
  shows "article_text (self (snd (parse C s))) =
           (if take (nat m) t = [] then article_text (self s) else take (nat m) t) \<and>
         (take (nat m) t \<noteq> [] \<longrightarrow> int (length (article_text (self (snd (parse C s))))) \<le> m)"
proof -
  obtain a n1 where g: "get_formatted C (cfg s1) f
      (post_cleanup C (cfg s1) (extractor (self s1)) n) = ((t, a), n1)"
    using assms(5) by (metis prod.collapse)
  have "article_text (self (snd (parse C s))) =
      (if take (nat m) t = [] then article_text (self s) else take (nat m) t)"
    unfolding parse_article_text[OF assms(1,2,3,4) g]
      cfg_slice_PInt[of "cfg s" "''MAX_TEXT''" m t, OF assms(6,7)]
    by simp
  moreover have "int (length (take (nat m) t)) \<le> m"
    using assms(7) by (auto simp: min_def)
  ultimately show ?thesis by simp
qed

theorem parse_text_prefix_witness:
  "cfg (toy_init (HtmlStr ''hello world'') ArgNone [(''MAX_TEXT'', PInt 3)]) ''MAX_TEXT'' =
     Some (PInt 3) \<and>
   article_text (self (snd (parse toy_collab
      (toy_init (HtmlStr ''hello world'') ArgNone [(''MAX_TEXT'', PInt 3)])))) = ''hel'' \<and>
   int (length (article_text (self (snd (parse toy_collab
      (toy_init (HtmlStr ''hello world'') ArgNone [(''MAX_TEXT'', PInt 3)])))))) \<le> 3"
proof -
  let ?s = "toy_init (HtmlStr ''hello world'') ArgNone [(''MAX_TEXT'', PInt 3)]"
  let ?p = "block [parse_tree toy_collab, parse_setup toy_collab, parse_meta toy_collab,
     parse_clean toy_collab] ?s"
  have "fst ?p = Continue"
    apply (simp add: init_eval hasattr_def setattr_def)
    apply (simp add: phase_eval)
    done
  then have 1: "?p = (Continue, snd ?p)"
    by (metis prod.collapse)
  have 2: "deref (snd ?p) (doc (self (snd ?p))) = Some ''hello world''"
    apply (simp add: init_eval hasattr_def setattr_def)
    apply (simp add: phase_eval)
    done
  have 3: "calculate_best_node toy_collab (cfg (snd ?p)) (extractor (self (snd ?p)))
      ''hello world'' = Some ''hello world''"
    by (simp add: toy_collab_def)
  have 4: "output_formatter (snd ?p) = Some ''en''"
    apply (simp add: init_eval hasattr_def setattr_def)
    apply (simp add: phase_eval)
    done
  have 5: "fst (fst (get_formatted toy_collab (cfg (snd ?p)) ''en''
      (post_cleanup toy_collab (cfg (snd ?p)) (extractor (self (snd ?p))) ''hello world''))) =
      ''hello world''"
    by (simp add: toy_collab_def)
  have 6: "cfg ?s ''MAX_TEXT'' = Some (PInt 3)"
    by (simp add: init_eval hasattr_def setattr_def toy_collab_def toy_config_def)
  have 7: "(0::int) \<le> 3" by simp
  show ?thesis
    using parse_text_prefix[OF 1 2 3 4 5 6 7] 6 by simp
qed

text \<open>
  C2 as stated fails: an Article of the one paragraph \<^verbatim>\<open>hello world\<close> with
  \<^verbatim>\<open>MAX_TEXT = 3\<close> has the text \<^verbatim>\<open>hel\<close> after \<^verbatim>\<open>set_text('hello world')\<close>, and after
  \<^verbatim>\<open>parse\<close> with a formatter that gives the page back as its text. The cut is inside the
  first word and at no paragraph boundary.
\<close>

theorem parse_cuts_mid_word:
  "cfg (toy_init (HtmlStr ''hello world'') ArgNone [(''MAX_TEXT'', PInt 3)]) ''MAX_TEXT'' =
     Some (PInt 3) \<and>
   article_text (self (snd (set_text ''hello world''
      (toy_init (HtmlStr ''hello world'') ArgNone [(''MAX_TEXT'', PInt 3)])))) = ''hel'' \<and>
   article_text (self (snd (parse toy_collab
      (toy_init (HtmlStr ''hello world'') ArgNone [(''MAX_TEXT'', PInt 3)])))) = ''hel'' \<and>
   spec_mid_word ''hello world'' (length ''hel'') \<and>
   \<not> spec_paragraph_boundary ''hello world'' (length ''hel'')"
proof -
  let ?s = "toy_init (HtmlStr ''hello world'') ArgNone [(''MAX_TEXT'', PInt 3)]"
  let ?p = "block [parse_tree toy_collab, parse_setup toy_collab, parse_meta toy_collab,
     parse_clean toy_collab] ?s"
  have "fst ?p = Continue"
    apply (simp add: init_eval hasattr_def setattr_def)
    apply (simp add: phase_eval)
    done
  then have 1: "?p = (Continue, snd ?p)"
    by (metis prod.collapse)
  have 2: "deref (snd ?p) (doc (self (snd ?p))) = Some ''hello world''"
    apply (simp add: init_eval hasattr_def setattr_def)
    apply (simp add: phase_eval)
    done
  have 3: "calculate_best_node toy_collab (cfg (snd ?p)) (extractor (self (snd ?p)))
      ''hello world'' = Some ''hello world''"
    by (simp add: toy_collab_def)
  have 4: "output_formatter (snd ?p) = Some ''en''"
    apply (simp add: init_eval hasattr_def setattr_def)
    apply (simp add: phase_eval)
    done
  have 5: "get_formatted toy_collab (cfg (snd ?p)) ''en''
      (post_cleanup toy_collab (cfg (snd ?p)) (extractor (self (snd ?p))) ''hello world'') =
      ((''hello world'', ''hello world''), [])"
    by (simp add: toy_collab_def)
  have 6: "cfg ?s ''MAX_TEXT'' = Some (PInt 3)"
    by (simp add: init_eval hasattr_def setattr_def toy_collab_def toy_config_def)
  have 7: "article_text (self (snd (parse toy_collab ?s))) = ''hel''"
    unfolding parse_article_text[OF 1 2 3 4 5]
    by (simp add: cfg_slice_def getattr_def 6)
  have 8: "spec_mid_word ''hello world'' (length ''hel'')"
    "\<not> spec_paragraph_boundary ''hello world'' (length ''hel'')"
    by (simp_all add: spec_mid_word_def spec_paragraph_boundary_def py_isspace_def)
  have 9: "article_text (self (snd (set_text ''hello world'' ?s))) = ''hel''"
    using set_text_prefix[OF 6, of "''hello world''"] by simp
  show ?thesis using 6 7 8 9 by simp
qed

section \<open>The validity check\<close>

text \<open>
  C4. On an Article that is not parsed, \<^verbatim>\<open>is_valid_body\<close> raises \<^verbatim>\<open>ArticleException\<close>
  (and leaves the state as it was); it does not return a value.
\<close>

theorem is_valid_body_unparsed:
  "\<not> is_parsed (self s) \<Longrightarrow> is_valid_body C s = (Raise ArticleException, s)"
  by (simp add: is_valid_body_def if_then_def raise_def)

theorem is_valid_body_unparsed_witness:
  "\<not> is_parsed (self toy_state) \<and>
   is_valid_body toy_collab toy_state = (Raise ArticleException, toy_state)"
  using is_valid_body_unparsed[of toy_state toy_collab]
  by (simp add: toy_state_def toy_article_def)



section \<open>What \<^verbatim>\<open>parse\<close> leaves in the Article\<close>



text \<open>
  C6. When the scorer selects a node \<open>n\<close>, then after \<^verbatim>\<open>parse\<close> (whatever its outcome)
  \<^verbatim>\<open>clean_top_node\<close> is an object of its own, at another address than \<^verbatim>\<open>top_node\<close>, and it
  holds the node as \<^verbatim>\<open>post_cleanup\<close> left it; what the formatter did to the node it was
  given is in \<^verbatim>\<open>top_node\<close> only.
\<close>

theorem parse_clean_top_node:
  assumes "block [parse_tree C, parse_setup C, parse_meta C, parse_clean C] s = (Continue, s1)"
    and "deref s1 (doc (self s1)) = Some e"
    and "calculate_best_node C (cfg s1) (extractor (self s1)) e = Some n"
  shows "top_node (self (snd (parse C s))) = Some (next_ref s1) \<and>
         clean_top_node (self (snd (parse C s))) = Some (Suc (next_ref s1)) \<and>
         elem_heap (snd (parse C s)) (Suc (next_ref s1)) =
           post_cleanup C (cfg s1) (extractor (self s1)) n \<and>
         (\<exists>f. output_formatter s1 = Some f \<and>
            elem_heap (snd (parse C s)) (next_ref s1) =
              snd (get_formatted C (cfg s1) f (post_cleanup C (cfg s1) (extractor (self s1)) n)))"
proof -
  obtain d h f where f: "doc (self s1) = Some d" "link_hash (self s1) = Some h"
      "output_formatter s1 = Some f"
    using prefix_Continue(1)[OF assms(1)] by auto
  have some: "calculate_best_node C (cfg s1) (extractor (self s1)) (elem_heap s1 d) = Some n"
    using assms(2,3) f(1) by (simp add: deref_def)
  obtain t a n1 where g: "get_formatted C (cfg s1) f
      (post_cleanup C (cfg s1) (extractor (self s1)) n) = ((t, a), n1)"
    by (metis prod.collapse)
  obtain r2 s2 where q: "block [parse_best_node C, parse_finish C] s1 = (r2, s2)"
    by (cases "block [parse_best_node C, parse_finish C] s1")
  have res: "snd (parse C s) = s2"
    by (cases r2) (simp_all add: parse_split assms(1) q del: block.simps)
  note e = suffix_some[OF f some refl g q]
  show ?thesis
    unfolding res using e(2,3,4) f(3) g by simp
qed

theorem parse_clean_top_node_witness:
  "top_node (self (snd (parse toy_collab (toy_init (HtmlStr ''hello world'') ArgNone [])))) = Some 4 \<and>
   clean_top_node (self (snd (parse toy_collab (toy_init (HtmlStr ''hello world'') ArgNone [])))) = Some 5 \<and>
   elem_heap (snd (parse toy_collab (toy_init (HtmlStr ''hello world'') ArgNone []))) 5 = ''hello world'' \<and>
   elem_heap (snd (parse toy_collab (toy_init (HtmlStr ''hello world'') ArgNone []))) 4 = []"
proof -
  let ?s = "toy_init (HtmlStr ''hello world'') ArgNone []"
  let ?p = "block [parse_tree toy_collab, parse_setup toy_collab, parse_meta toy_collab,
     parse_clean toy_collab] ?s"
  have "fst ?p = Continue"
    apply (simp add: init_eval)
    apply (simp add: phase_eval)
    done
  then have 1: "?p = (Continue, snd ?p)"
    by (metis prod.collapse)
  have 2: "deref (snd ?p) (doc (self (snd ?p))) = Some ''hello world''"
    apply (simp add: init_eval)
    apply (simp add: phase_eval)
    done
  have 3: "calculate_best_node toy_collab (cfg (snd ?p)) (extractor (self (snd ?p)))
      ''hello world'' = Some ''hello world''"
    by (simp add: toy_collab_def)
  have 4: "next_ref (snd ?p) = 4"
    apply (simp add: init_eval)
    apply (simp add: phase_eval)
    done
  have 5: "post_cleanup toy_collab c x ''hello world'' = ''hello world''"
     "snd (get_formatted toy_collab c f ''hello world'') = []" for c x f
    by (simp_all add: toy_collab_def)
  show ?thesis
    using parse_clean_top_node[OF 1 2 3] 4 5 by (simp add: numeral_eq_Suc)
qed

section \<open>The parsing state\<close>



section \<open>Determinism\<close>

text \<open>
  C5. Two Articles constructed from the same HTML, with configurations of the same
  attributes and the same keyword arguments, in any two states of the world (other
  addresses, another clock, another file system) and with any titles: \<^verbatim>\<open>parse\<close> has the
  same outcome on both and leaves the same \<^verbatim>\<open>text\<close> and the same \<^verbatim>\<open>article_html\<close>.
\<close>

theorem parse_deterministic:
  fixes C :: "('e, 'x, 'f, 'w) collab"
  assumes "Article_init C html0 title1 url1 config1 kwargs s0 = (Return (), s)"
    and "Article_init C html0 title2 url2 config2 kwargs t0 = (Return (), t)"
    and "(case config1 of None \<Rightarrow> Configuration C | Some r \<Rightarrow> config_heap s0 r) =
         (case config2 of None \<Rightarrow> Configuration C | Some r \<Rightarrow> config_heap t0 r)"
  shows "fst (parse C s) = fst (parse C t) \<and>
         article_text (self (snd (parse C s))) = article_text (self (snd (parse C t))) \<and>
         article_html (self (snd (parse C s))) = article_html (self (snd (parse C t)))"
proof -
  have 1: "fst (Article_init C html0 title1 url1 config1 kwargs s0) = Return ()"
    "s = snd (Article_init C html0 title1 url1 config1 kwargs s0)"
    using assms(1) by simp_all
  have 2: "fst (Article_init C html0 title2 url2 config2 kwargs t0) = Return ()"
    "t = snd (Article_init C html0 title2 url2 config2 kwargs t0)"
    using assms(2) by simp_all
  note a = Article_init_fields[OF 1]
  note b = Article_init_fields[OF 2]
  have c: "cfg s = cfg t" unfolding a(10) b(10) assms(3) by (rule refl)
  have "obs_input s = obs_input t"
    unfolding obs_input_def obs_result_def a(2,4,5,8,11) b(2,4,5,8,11) c by (rule refl)
  from parse_same[OF this, of C] show ?thesis
    by (simp add: obs_result_def)
qed

theorem parse_deterministic_witness:
  "fst (Article_init toy_collab (HtmlStr ''hello world'') (ArgStr ''One'') ArgNone None []
          toy_state) = Return () \<and>
   fst (Article_init toy_collab (HtmlStr ''hello world'') ArgNone (ArgStr ''http://x'') (Some 0) []
          (toy_state\<lparr>next_ref := 7, os := [''/tmp''], clock := ''9.9''\<rparr>)) = Return () \<and>
   fst (parse toy_collab (snd (Article_init toy_collab (HtmlStr ''hello world'') (ArgStr ''One'')
          ArgNone None [] toy_state))) =
   fst (parse toy_collab (snd (Article_init toy_collab (HtmlStr ''hello world'') ArgNone
          (ArgStr ''http://x'') (Some 0) []
          (toy_state\<lparr>next_ref := 7, os := [''/tmp''], clock := ''9.9''\<rparr>)))) \<and>
   article_text (self (snd (parse toy_collab (snd (Article_init toy_collab
          (HtmlStr ''hello world'') (ArgStr ''One'') ArgNone None [] toy_state))))) =
   article_text (self (snd (parse toy_collab (snd (Article_init toy_collab
          (HtmlStr ''hello world'') ArgNone (ArgStr ''http://x'') (Some 0) []
          (toy_state\<lparr>next_ref := 7, os := [''/tmp''], clock := ''9.9''\<rparr>)))))) \<and>
   article_html (self (snd (parse toy_collab (snd (Article_init toy_collab
          (HtmlStr ''hello world'') (ArgStr ''One'') ArgNone None [] toy_state))))) =
   article_html (self (snd (parse toy_collab (snd (Article_init toy_collab
          (HtmlStr ''hello world'') ArgNone (ArgStr ''http://x'') (Some 0) []
          (toy_state\<lparr>next_ref := 7, os := [''/tmp''], clock := ''9.9''\<rparr>))))))"
proof -
  let ?i1 = "Article_init toy_collab (HtmlStr ''hello world'') (ArgStr ''One'') ArgNone None []
          toy_state"
  let ?i2 = "Article_init toy_collab (HtmlStr ''hello world'') ArgNone (ArgStr ''http://x'')
          (Some 0) [] (toy_state\<lparr>next_ref := 7, os := [''/tmp''], clock := ''9.9''\<rparr>)"
  have f1: "fst ?i1 = Return ()" and f2: "fst ?i2 = Return ()"
    by (simp_all add: Article_init_guard_aux)
  have 1: "?i1 = (Return (), snd ?i1)" using f1 by (metis prod.collapse)
  have 2: "?i2 = (Return (), snd ?i2)" using f2 by (metis prod.collapse)
  have 3: "(case None of None \<Rightarrow> Configuration toy_collab | Some r \<Rightarrow> config_heap toy_state r) =
         (case Some 0 of None \<Rightarrow> Configuration toy_collab
          | Some r \<Rightarrow> config_heap (toy_state\<lparr>next_ref := 7, os := [''/tmp''], clock := ''9.9''\<rparr>) r)"
    by (simp add: toy_collab_def toy_state_def)
  show ?thesis
    using parse_deterministic[OF 1 2 3] f1 f2 by simp
qed

end
